theory Spec2Isabelle
  imports Main "HOL-Library.Word" "HOL-Library.Multiset"
begin

section \<open>JavaScript strings and values used by syncNFTMetadata.js\<close>

text \<open>
  Strings are character lists. The operations below are the \<open>String.prototype\<close>
  methods the script calls, each with a string argument: \<open>startsWith\<close>, \<open>includes\<close>
  (here \<open>includes_str\<close>),
  \<open>replace\<close> (string pattern: the first occurrence only, the replacement string expanded
  by the language's substitution patterns), \<open>split\<close>, \<open>toLowerCase\<close> and the decimal
  \<open>toString\<close> of a token id. \<open>toLowerCase\<close> maps the letters \<open>A\<close> to \<open>Z\<close> and leaves
  every other character alone: the strings it is applied to are addresses, digits and
  ASCII letters after \<open>0x\<close>.
\<close>

fun startsWith :: "string \<Rightarrow> string \<Rightarrow> bool" where
  "startsWith s [] = True"
| "startsWith [] (p # ps) = False"
| "startsWith (c # cs) (p # ps) = (c = p \<and> startsWith cs ps)"

fun indexOf :: "string \<Rightarrow> string \<Rightarrow> nat option" where
  "indexOf [] p = (if p = [] then Some 0 else None)"
| "indexOf (c # cs) p =
     (if startsWith (c # cs) p then Some 0 else map_option Suc (indexOf cs p))"

definition includes_str :: "string \<Rightarrow> string \<Rightarrow> bool" where
  "includes_str s p = (indexOf s p \<noteq> None)"

text \<open>
  The replacement text of \<open>replace\<close> with a string pattern: \<open>$$\<close> stands for a dollar sign,
  \<open>$&\<close> for the matched text, \<open>$\<close> followed by a backquote for the text before the match
  and \<open>$\<close> followed by an apostrophe for the text after it. A string pattern has no capture
  groups, so every other \<open>$\<close> stands for itself.
\<close>

fun getSubstitution :: "string \<Rightarrow> string \<Rightarrow> string \<Rightarrow> string \<Rightarrow> string" where
  "getSubstitution matched pre post [] = []"
| "getSubstitution matched pre post [c] = [c]"
| "getSubstitution matched pre post (c # d # r) =
     (if c = CHR ''$'' then
        (if d = CHR ''$'' then CHR ''$'' # getSubstitution matched pre post r
         else if d = CHR ''&'' then matched @ getSubstitution matched pre post r
         else if d = CHR 0x60 then pre @ getSubstitution matched pre post r
         else if d = CHR 0x27 then post @ getSubstitution matched pre post r
         else c # getSubstitution matched pre post (d # r))
      else c # getSubstitution matched pre post (d # r))"

definition replace :: "string \<Rightarrow> string \<Rightarrow> string \<Rightarrow> string" where
  "replace s p r =
     (case indexOf s p of
        None \<Rightarrow> s
      | Some k \<Rightarrow>
          (let pre = take k s; post = drop (k + length p) s
           in pre @ getSubstitution p pre post r @ post))"

function split :: "string \<Rightarrow> string \<Rightarrow> string list" where
  "split s sep =
     (if sep = [] then map (\<lambda>c. [c]) s
      else case indexOf s sep of
             None \<Rightarrow> [s]
           | Some k \<Rightarrow> take k s # split (drop (k + length sep) s) sep)"
  by pat_completeness auto
termination
proof (relation "measure (\<lambda>(s, sep). length s)")
  show "wf (measure (\<lambda>(s, sep). length s))" by simp
next
  fix s sep :: string and k :: nat
  assume "sep \<noteq> []" and "indexOf s sep = Some k"
  then have "s \<noteq> []" by (cases s) auto
  with \<open>sep \<noteq> []\<close> show "((drop (k + length sep) s, sep), (s, sep)) \<in> measure (\<lambda>(s, sep). length s)"
    by simp
qed

declare split.simps [simp del]

definition lowerChar :: "char \<Rightarrow> char" where
  "lowerChar c =
     (let n = (of_char c :: nat) in if 65 \<le> n \<and> n \<le> 90 then char_of (n + 32) else c)"

definition toLowerCase :: "string \<Rightarrow> string" where
  "toLowerCase s = map lowerChar s"

fun toString :: "nat \<Rightarrow> string" where
  "toString n =
     (if n < 10 then [char_of (48 + n)]
      else toString (n div 10) @ [char_of (48 + n mod 10)])"

declare toString.simps [simp del]

text \<open>
  A value of the script is \<open>undefined\<close>/\<open>null\<close> or a string where the script only handles
  strings (\<open>string option\<close>), and a JSON value where it handles a parsed document or a
  database column. \<open>truthy\<close> is the language's conversion to a boolean, which every
  \<open>if (x)\<close> and \<open>&&\<close> of the script applies. An object is the list of its properties,
  each key once. A number is the double the script holds, given by its 64 bits (sign,
  11 bits of exponent, 52 bits of fraction): it is falsy when it is a zero of either sign
  or not a number.
\<close>

datatype json =
    JNull
  | JBool bool
  | JNum "64 word"
  | JStr string
  | JArr "json list"
  | JObj "(string \<times> json) list"

fun truthy :: "json \<Rightarrow> bool" where
  "truthy JNull = False"
| "truthy (JBool b) = b"
| "truthy (JNum w) = (take_bit 63 w \<noteq> 0 \<and> take_bit 63 w \<le> 0x7FF0000000000000)"
| "truthy (JStr s) = (s \<noteq> [])"
| "truthy (JArr xs) = True"
| "truthy (JObj kvs) = True"

text \<open>Reading a property: \<open>None\<close> is \<open>undefined\<close> (the key is not there, or the value
  is no object).\<close>

fun getProp :: "json \<Rightarrow> string \<Rightarrow> json option" where
  "getProp (JObj kvs) k = map_of kvs k"
| "getProp v k = None"

definition truthyProp :: "json option \<Rightarrow> bool" where
  "truthyProp v = (case v of None \<Rightarrow> False | Some j \<Rightarrow> truthy j)"

section \<open>Link resolver\<close>

text \<open>
  \<^verbatim>\<open>function resolveLink(uri, gateway = "https://ipfs.io/ipfs/")\<close>: the second
  argument is \<open>None\<close> when the caller leaves it out.
\<close>

definition resolveLink :: "string option \<Rightarrow> string option \<Rightarrow> string option" where
  "resolveLink uri gw =
     (let gateway = (case gw of None \<Rightarrow> ''https://ipfs.io/ipfs/'' | Some g \<Rightarrow> g)
      in case uri of
           None \<Rightarrow> None
         | Some u \<Rightarrow>
             if u = [] then None
             else if startsWith u ''ipfs://'' then Some (replace u ''ipfs://'' gateway)
             else Some u)"

text \<open>\<open>hasPattern r\<close>: the replacement text \<open>r\<close> contains one of the four patterns that
  \<open>replace\<close> expands.\<close>

fun hasPattern :: "string \<Rightarrow> bool" where
  "hasPattern [] = False"
| "hasPattern [c] = False"
| "hasPattern (c # d # r) =
     ((c = CHR ''$'' \<and> (d = CHR ''$'' \<or> d = CHR ''&'' \<or> d = CHR 0x60 \<or> d = CHR 0x27))
      \<or> hasPattern (d # r))"

section \<open>Configuration and endpoint rotator\<close>

text \<open>
  The three environment variables the script reads into constants. \<open>APECHAIN_RPC\<close> is
  \<open>None\<close> when the variable is not set (\<open>RPC_LIST[0]\<close> is then \<open>undefined\<close>).
\<close>

record config =
  APECHAIN_RPC :: "string option"
  NFT_CONTRACT_ADDRESS :: string
  MARKETPLACE_CONTRACT_ADDRESS :: string

definition RPC_LIST :: "config \<Rightarrow> string option list" where
  "RPC_LIST cfg =
     [APECHAIN_RPC cfg,
      Some ''https://rpc.apechain.com/http'',
      Some ''https://apechain.drpc.org'',
      Some ''https://33139.rpc.thirdweb.com'']"

definition IPFS_GATEWAYS :: "string list" where
  "IPFS_GATEWAYS =
     [''https://dweb.link/ipfs/'',
      ''https://ipfs.io/ipfs/'',
      ''https://gateway.pinata.cloud/ipfs/'',
      ''https://cloudflare-ipfs.com/ipfs/'']"

definition BATCH_SIZE :: nat where
  "BATCH_SIZE = 10"

text \<open>
  One row of the \<open>metadata\<close> table, with the columns the script reads and writes.
  \<open>buyer_address\<close> is \<open>None\<close> when the column is null.
\<close>

record metadata_row =
  tokenid :: string
  nft_contract :: string
  marketplace_contract :: string
  buyer_address :: "string option"
  on_chain :: bool
  name :: json
  image :: json
  updatedat :: string
  seaport_order :: json
  price :: json
  order_hash :: json

text \<open>
  The mutable state of the script: the module variables \<open>providerIndex\<close> and
  \<open>provider\<close> (a provider is identified with the URL it was built from; \<open>nftContract\<close>
  is rebuilt on \<open>provider\<close> at each assignment, so it needs no field of its own), the
  table, keyed by \<open>tokenid\<close>, and the list of rows handed to \<open>upsert\<close> so far. A row of
  the table is held with its values as a lookup's reply hands them to the script: a
  numeric column as the double the client parses it to.
\<close>

record sync_state =
  providerIndex :: nat
  provider :: string
  store :: "string \<Rightarrow> metadata_row option"
  upserts :: "metadata_row list"

definition getProvider :: "config \<Rightarrow> sync_state \<Rightarrow> string \<times> sync_state" where
  "getProvider cfg st =
     (let rpc = RPC_LIST cfg ! (providerIndex st mod length (RPC_LIST cfg))
      in case rpc of
           None \<Rightarrow> (''https://rpc.apechain.com/http'', st)
         | Some u \<Rightarrow>
             if u = [] then (''https://rpc.apechain.com/http'', st)
             else (u, st\<lparr>providerIndex := providerIndex st + 1\<rparr>))"

text \<open>\<^verbatim>\<open>provider = getProvider(); nftContract = new ethers.Contract(..., provider);\<close>\<close>

definition rebind :: "config \<Rightarrow> sync_state \<Rightarrow> sync_state" where
  "rebind cfg st = (case getProvider cfg st of (p, st') \<Rightarrow> st'\<lparr>provider := p\<rparr>)"

text \<open>The state once the module is loaded: \<^verbatim>\<open>let provider = getProvider();\<close>\<close>

definition initState :: "config \<Rightarrow> (string \<Rightarrow> metadata_row option) \<Rightarrow> sync_state" where
  "initState cfg tbl =
     rebind cfg \<lparr>providerIndex = 0, provider = [], store = tbl, upserts = []\<rparr>"

section \<open>The outside world\<close>

text \<open>
  A contract call returns or throws an error whose \<open>message\<close> may be missing. What the
  chain answers while one token is processed may depend on the endpoint asked and on the
  number of the attempt. An HTTP request throws (network error, timeout, abort) or gives
  a response with its \<open>ok\<close> flag and what \<open>res.json()\<close> makes of the body (\<open>None\<close>: it
  rejects); one fetch requests no URL twice, so an answer for each URL is all it can
  see. \<open>lookup_fails\<close> says that the lookup of the prior row fails (its reply has an
  \<open>error\<close> and \<open>data\<close> is null, whatever the table holds), \<open>upsert_error\<close> is the
  \<open>error\<close> the table's \<open>upsert\<close> reports, if any, and \<open>now\<close> the timestamp. Every call
  is taken to settle, by returning or by throwing: a call that never answers is not part
  of the model.
\<close>

datatype 'a call = Returned 'a | Threw "string option"

datatype http_outcome = NetworkError | Response bool "json option"

record task_env =
  ownerOf :: "string \<Rightarrow> nat \<Rightarrow> string call"
  tokenURI :: "string \<Rightarrow> nat \<Rightarrow> string call"
  fetch :: "string \<Rightarrow> http_outcome"
  lookup_fails :: bool
  upsert_error :: "string option"
  now :: string

text \<open>
  What a run meets: the answer to \<open>totalSupply\<close>, what each token's task meets, and, for
  the batch that starts at id \<open>i\<close>, the order \<open>schedule i\<close> in which the replies its tasks
  wait for arrive (see \<open>runTasks\<close>).
\<close>

record world =
  totalSupply :: "string \<Rightarrow> nat call"
  task :: "nat \<Rightarrow> task_env"
  schedule :: "nat \<Rightarrow> nat \<Rightarrow> nat"

section \<open>Metadata fetcher\<close>

text \<open>\<^verbatim>\<open>if (res.ok) return await res.json();\<close> inside \<open>try\<close>: the document, if the
  request gives one.\<close>

fun okJson :: "http_outcome \<Rightarrow> json option" where
  "okJson NetworkError = None"
| "okJson (Response ok body) = (if ok then body else None)"

definition isDirect :: "string \<Rightarrow> bool" where
  "isDirect uri = (startsWith uri ''http'' \<and> \<not> includes_str uri ''ipfs'')"

definition ipfsHashOf :: "string \<Rightarrow> string" where
  "ipfsHashOf uri =
     (if startsWith uri ''ipfs://'' then replace uri ''ipfs://'' []
      else if includes_str uri ''/ipfs/'' then
        (case split uri ''/ipfs/'' of a # b # rest \<Rightarrow> b | _ \<Rightarrow> ''undefined'')
      else uri)"

text \<open>The gateway loop. The second component lists the URLs requested, in order.\<close>

fun tryGateways :: "(string \<Rightarrow> http_outcome) \<Rightarrow> string \<Rightarrow> string list \<Rightarrow> json option \<times> string list" where
  "tryGateways net h [] = (None, [])"
| "tryGateways net h (gateway # gs) =
     (let url = gateway @ h
      in case okJson (net url) of
           Some data \<Rightarrow> (Some data, [url])
         | None \<Rightarrow> (case tryGateways net h gs of (r, reqs) \<Rightarrow> (r, url # reqs)))"

datatype fetch_error = MetadataUnavailable

text \<open>\<open>MetadataUnavailable\<close> is
  \<^verbatim>\<open>throw new Error("Metadata fetch failed from all gateways")\<close>.\<close>

definition fetchMetadataWithRetry ::
  "(string \<Rightarrow> http_outcome) \<Rightarrow> string \<Rightarrow> (fetch_error + json) \<times> string list" where
  "fetchMetadataWithRetry net uri =
     (case (if isDirect uri then okJson (net uri) else None) of
        Some data \<Rightarrow> (Inr data, [uri])
      | None \<Rightarrow>
          (case tryGateways net (ipfsHashOf uri) IPFS_GATEWAYS of
             (r, reqs) \<Rightarrow>
               (case r of None \<Rightarrow> Inl MetadataUnavailable | Some data \<Rightarrow> Inr data,
                (if isDirect uri then [uri] else []) @ reqs)))"

text \<open>
  The same function, with the options the script passes with each request. The direct
  attempt is \<^verbatim>\<open>fetch(tokenURI, { timeout: 5000 })\<close>; a gateway attempt is
  \<^verbatim>\<open>fetch(url, { signal: controller.signal })\<close> with a controller that a timer aborts
  after 5000 ms. Times are in milliseconds. The network answers a request, and the
  second component lists the requests made, in order.
\<close>

record request =
  req_url :: string
  req_timeout :: "nat option"
  req_abort_after :: "nat option"

definition directGet :: "string \<Rightarrow> request" where
  "directGet uri = \<lparr>req_url = uri, req_timeout = Some 5000, req_abort_after = None\<rparr>"

definition gatewayGet :: "string \<Rightarrow> request" where
  "gatewayGet url = \<lparr>req_url = url, req_timeout = None, req_abort_after = Some 5000\<rparr>"

fun tryGateways_req ::
  "(request \<Rightarrow> http_outcome) \<Rightarrow> string \<Rightarrow> string list \<Rightarrow> json option \<times> request list" where
  "tryGateways_req net h [] = (None, [])"
| "tryGateways_req net h (gateway # gs) =
     (let url = gateway @ h
      in case okJson (net (gatewayGet url)) of
           Some data \<Rightarrow> (Some data, [gatewayGet url])
         | None \<Rightarrow> (case tryGateways_req net h gs of (r, reqs) \<Rightarrow> (r, gatewayGet url # reqs)))"

definition fetchMetadataWithRetry_req ::
  "(request \<Rightarrow> http_outcome) \<Rightarrow> string \<Rightarrow> (fetch_error + json) \<times> request list" where
  "fetchMetadataWithRetry_req net uri =
     (case (if isDirect uri then okJson (net (directGet uri)) else None) of
        Some data \<Rightarrow> (Inr data, [directGet uri])
      | None \<Rightarrow>
          (case tryGateways_req net (ipfsHashOf uri) IPFS_GATEWAYS of
             (r, reqs) \<Rightarrow>
               (case r of None \<Rightarrow> Inl MetadataUnavailable | Some data \<Rightarrow> Inr data,
                (if isDirect uri then [directGet uri] else []) @ reqs)))"

section \<open>Chain reader\<close>

text \<open>
  One pass through the body of the retry loop's \<open>try\<close>: \<open>ownerOf\<close>, then \<open>tokenURI\<close>,
  on the contract bound to \<open>url\<close>.
\<close>

definition attempt :: "task_env \<Rightarrow> string \<Rightarrow> nat \<Rightarrow> (string \<times> string) call" where
  "attempt e url i =
     (case ownerOf e url i of
        Threw m \<Rightarrow> Threw m
      | Returned owner \<Rightarrow>
          (case tokenURI e url i of
             Threw m \<Rightarrow> Threw m
           | Returned uri \<Rightarrow> Returned (owner, uri)))"

text \<open>\<^verbatim>\<open>err.message?.includes("nonexistent token")\<close>\<close>

definition nonexistent :: "string option \<Rightarrow> bool" where
  "nonexistent m = (case m of None \<Rightarrow> False | Some msg \<Rightarrow> includes_str msg ''nonexistent token'')"

text \<open>
  The outcome of the retry loop: \<open>TokenNotFound\<close> is the \<open>return\<close> in the handler,
  \<open>ChainUnavailable\<close> is \<^verbatim>\<open>throw new Error("RPC failed")\<close> after the loop. The
  last argument and component list the endpoints asked, in order.
\<close>

datatype read_result = Success string string | TokenNotFound | ChainUnavailable

function readChain ::
  "config \<Rightarrow> task_env \<Rightarrow> nat \<Rightarrow> sync_state \<Rightarrow> string list \<Rightarrow> read_result \<times> sync_state \<times> string list" where
  "readChain cfg e i st asked =
     (if i < length (RPC_LIST cfg) then
        (case attempt e (provider st) i of
           Returned (owner, uri) \<Rightarrow> (Success owner uri, st, asked @ [provider st])
         | Threw m \<Rightarrow>
             if nonexistent m then (TokenNotFound, st, asked @ [provider st])
             else readChain cfg e (i + 1) (rebind cfg st) (asked @ [provider st]))
      else (ChainUnavailable, st, asked))"
  by pat_completeness auto
termination
  by (relation "measure (\<lambda>(cfg, e, i, st, asked). length (RPC_LIST cfg) - i)") auto

declare readChain.simps [simp del]

section \<open>Reconciler and the per-token task\<close>

definition defaultName :: "nat \<Rightarrow> json" where
  "defaultName tid = JStr (''NFT #'' @ toString tid)"

text \<open>\<open>truthyOr v d\<close>: \<^verbatim>\<open>if (v) x = v;\<close> on a variable \<open>x\<close> that holds \<open>d\<close>.\<close>

definition truthyOr :: "json option \<Rightarrow> json \<Rightarrow> json" where
  "truthyOr v d = (case v of None \<Rightarrow> d | Some j \<Rightarrow> if truthy j then j else d)"

text \<open>Step 2 of \<open>processNFT\<close>: the \<open>name\<close> and \<open>image\<close> it will write.\<close>

definition metadataFields :: "nat \<Rightarrow> fetch_error + json \<Rightarrow> json \<times> json" where
  "metadataFields tid r =
     (case r of
        Inl err \<Rightarrow> (defaultName tid, JNull)
      | Inr metadata \<Rightarrow>
          if truthy metadata then
            (truthyOr (getProp metadata ''name'') (defaultName tid),
             truthyOr (getProp metadata ''image'') (truthyOr (getProp metadata ''image_url'') JNull))
          else (defaultName tid, JNull))"

definition shouldWipeOrder :: "metadata_row option \<Rightarrow> string \<Rightarrow> bool" where
  "shouldWipeOrder existingData owner =
     (case existingData of
        None \<Rightarrow> False
      | Some ex \<Rightarrow>
          (case buyer_address ex of
             None \<Rightarrow> False
           | Some b \<Rightarrow> b \<noteq> [] \<and> toLowerCase b \<noteq> toLowerCase owner))"

definition upsertData ::
  "config \<Rightarrow> nat \<Rightarrow> string \<Rightarrow> json \<Rightarrow> json \<Rightarrow> metadata_row option \<Rightarrow> string \<Rightarrow> metadata_row" where
  "upsertData cfg tid owner nm img existingData stamp =
     (let base = \<lparr>tokenid = toString tid,
                  nft_contract = NFT_CONTRACT_ADDRESS cfg,
                  marketplace_contract = MARKETPLACE_CONTRACT_ADDRESS cfg,
                  buyer_address = Some (toLowerCase owner),
                  on_chain = True,
                  name = nm,
                  image = img,
                  updatedat = stamp,
                  seaport_order = JNull,
                  price = JNull,
                  order_hash = JNull\<rparr>
      in case existingData of
           None \<Rightarrow> base
         | Some ex \<Rightarrow>
             if \<not> shouldWipeOrder existingData owner
             then base\<lparr>seaport_order := seaport_order ex, price := price ex,
                       order_hash := order_hash ex\<rparr>
             else base)"

text \<open>
  What a task comes to: the row was written (\<open>Synced\<close>), \<open>upsert\<close> reported an error
  (\<open>DbError\<close>), the token does not exist (\<open>NotFound\<close>, the early \<open>return\<close>), or an
  exception reached the task's own \<open>catch\<close> (\<open>Failed\<close>, with its message).
\<close>

datatype task_outcome = Synced | DbError string | NotFound | Failed string

text \<open>
  Step 3 of \<open>processNFT\<close>: \<^verbatim>\<open>const { data: existingData } = await ... .single()\<close>.
  Of the reply only \<open>data\<close> is kept: it is the row the table holds for the id, and null
  when the table holds none or when the lookup fails; the reply's \<open>error\<close> is dropped.
\<close>

definition lookupData :: "task_env \<Rightarrow> sync_state \<Rightarrow> nat \<Rightarrow> metadata_row option" where
  "lookupData e st tid = (if lookup_fails e then None else store st (toString tid))"

text \<open>
  The body of the \<open>try\<close> of \<open>processNFT\<close>; \<open>Inl\<close> is an exception leaving it. An
  \<open>upsert\<close> that reports an error leaves the table as it was.
\<close>

definition processNFT_try ::
  "config \<Rightarrow> task_env \<Rightarrow> nat \<Rightarrow> sync_state \<Rightarrow> string \<times> sync_state + task_outcome \<times> sync_state" where
  "processNFT_try cfg e tid st =
     (case readChain cfg e 0 st [] of
        (TokenNotFound, st1, asked) \<Rightarrow> Inr (NotFound, st1)
      | (ChainUnavailable, st1, asked) \<Rightarrow> Inl (''RPC failed'', st1)
      | (Success owner uri, st1, asked) \<Rightarrow>
          (case metadataFields tid (fst (fetchMetadataWithRetry (fetch e) uri)) of
             (nm, img) \<Rightarrow>
               (let existingData = lookupData e st1 tid;
                    row = upsertData cfg tid owner nm img existingData (now e);
                    st2 = st1\<lparr>upserts := upserts st1 @ [row]\<rparr>
                in case upsert_error e of
                     Some msg \<Rightarrow> Inr (DbError msg, st2)
                   | None \<Rightarrow> Inr (Synced, st2\<lparr>store := (store st2)(toString tid \<mapsto> row)\<rparr>))))"

text \<open>\<open>processNFT\<close>: the \<open>try\<close> with its \<open>catch\<close>. \<open>Inl\<close> would be a rejected promise.\<close>

definition processNFT ::
  "config \<Rightarrow> task_env \<Rightarrow> nat \<Rightarrow> sync_state \<Rightarrow> string \<times> sync_state + task_outcome \<times> sync_state" where
  "processNFT cfg e tid st =
     (case processNFT_try cfg e tid st of
        Inl (msg, st') \<Rightarrow> Inr (Failed msg, st')
      | Inr r \<Rightarrow> Inr r)"

section \<open>Orchestrator\<close>

text \<open>The inner loop of \<open>main\<close>: the ids \<open>i + j\<close>, \<open>j < BATCH_SIZE\<close>, that are at most
  \<open>totalSupply\<close>.\<close>

definition batch :: "nat \<Rightarrow> nat \<Rightarrow> nat list" where
  "batch i supply = filter (\<lambda>n. n \<le> supply) (map (\<lambda>j. i + j) [0..<BATCH_SIZE])"

text \<open>
  \<^verbatim>\<open>await Promise.all(batch.map(id => processNFT(id)))\<close>: every task of the batch is
  started, in the order of the batch, and runs until its first \<open>await\<close>, before any of
  them goes on. From then on a task waits at an \<open>await\<close> with its local variables, and
  tasks are resumed one at a time: a resumed task runs from its \<open>await\<close> to its next one,
  or to its end. The tasks of a batch share the module variables \<open>providerIndex\<close>,
  \<open>provider\<close> and \<open>nftContract\<close>, and the table.

  \<open>pending\<close> says where a task waits, with the local variables it will use:
  \<open>OwnerOf i u\<close>, in attempt \<open>i\<close> of the retry loop, for the answer of \<open>ownerOf\<close>, asked of
  the contract that was bound to the endpoint \<open>u\<close> when the call was made;
  \<open>TokenURI i u owner\<close>, in the same attempt, for the answer of \<open>tokenURI\<close> asked of \<open>u\<close>;
  \<open>Fetching owner uri\<close> for \<open>fetchMetadataWithRetry(uri)\<close>, whose own \<open>await\<close>s touch no
  variable of the module and are taken in one step; \<open>Selecting owner nm img\<close> for the
  lookup of the prior row; \<open>Upserting row\<close> for the \<open>upsert\<close> of \<open>row\<close>; \<open>Finished\<close>
  when the task has ended.
\<close>

datatype pending =
    OwnerOf nat string
  | TokenURI nat string string
  | Fetching string string
  | Selecting string json json
  | Upserting metadata_row
  | Finished task_outcome

text \<open>
  The head of the retry loop with the loop variable at \<open>i\<close>: the call of \<open>ownerOf\<close> on
  the contract bound at that moment, or, the loop being over without success,
  \<^verbatim>\<open>throw new Error("RPC failed")\<close> (\<open>Inl\<close>).
\<close>

definition loopHead :: "config \<Rightarrow> nat \<Rightarrow> sync_state \<Rightarrow> string + pending" where
  "loopHead cfg i st =
     (if i < length (RPC_LIST cfg) then Inr (OwnerOf i (provider st)) else Inl ''RPC failed'')"

text \<open>The \<open>catch\<close> of the retry loop, entered in attempt \<open>i\<close> with an error whose message
  is \<open>m\<close>, followed by the loop's \<open>i++\<close> and its head.\<close>

definition handler ::
  "config \<Rightarrow> string option \<Rightarrow> nat \<Rightarrow> sync_state \<Rightarrow> string \<times> sync_state + pending \<times> sync_state" where
  "handler cfg m i st =
     (if nonexistent m then Inr (Finished NotFound, st)
      else (let st' = rebind cfg st
            in case loopHead cfg (i + 1) st' of
                 Inl msg \<Rightarrow> Inl (msg, st')
               | Inr p \<Rightarrow> Inr (p, st')))"

text \<open>
  A task resumed inside the \<open>try\<close> of \<open>processNFT\<close>: from the \<open>await\<close> it waits at to the
  next. \<open>Inl\<close> is an exception leaving the \<open>try\<close>. The lookup reads the table, and the
  \<open>upsert\<close> writes it, when the task waiting for the reply is resumed; the row counts as
  handed to \<open>upsert\<close> when the call is made.
\<close>

definition resume_try ::
  "config \<Rightarrow> task_env \<Rightarrow> nat \<Rightarrow> pending \<Rightarrow> sync_state \<Rightarrow>
     string \<times> sync_state + pending \<times> sync_state" where
  "resume_try cfg e tid p st =
     (case p of
        OwnerOf i u \<Rightarrow>
          (case ownerOf e u i of
             Returned owner \<Rightarrow> Inr (TokenURI i (provider st) owner, st)
           | Threw m \<Rightarrow> handler cfg m i st)
      | TokenURI i u owner \<Rightarrow>
          (case tokenURI e u i of
             Returned uri \<Rightarrow> Inr (Fetching owner uri, st)
           | Threw m \<Rightarrow> handler cfg m i st)
      | Fetching owner uri \<Rightarrow>
          (case metadataFields tid (fst (fetchMetadataWithRetry (fetch e) uri)) of
             (nm, img) \<Rightarrow> Inr (Selecting owner nm img, st))
      | Selecting owner nm img \<Rightarrow>
          (let row = upsertData cfg tid owner nm img (lookupData e st tid) (now e)
           in Inr (Upserting row, st\<lparr>upserts := upserts st @ [row]\<rparr>))
      | Upserting row \<Rightarrow>
          (case upsert_error e of
             Some msg \<Rightarrow> Inr (Finished (DbError msg), st)
           | None \<Rightarrow> Inr (Finished Synced, st\<lparr>store := (store st)(toString tid \<mapsto> row)\<rparr>))
      | Finished out \<Rightarrow> Inr (Finished out, st))"

text \<open>The same with the \<open>catch\<close> of \<open>processNFT\<close>, which ends the task.\<close>

definition resume ::
  "config \<Rightarrow> task_env \<Rightarrow> nat \<Rightarrow> pending \<Rightarrow> sync_state \<Rightarrow> pending \<times> sync_state" where
  "resume cfg e tid p st =
     (case resume_try cfg e tid p st of
        Inl (msg, st') \<Rightarrow> (Finished (Failed msg), st')
      | Inr r \<Rightarrow> r)"

text \<open>A task from its start to its first \<open>await\<close>.\<close>

definition start :: "config \<Rightarrow> sync_state \<Rightarrow> pending" where
  "start cfg st = (case loopHead cfg 0 st of Inl msg \<Rightarrow> Finished (Failed msg) | Inr p \<Rightarrow> p)"

definition finished :: "pending \<Rightarrow> bool" where
  "finished p = (case p of Finished out \<Rightarrow> True | _ \<Rightarrow> False)"

text \<open>The positions, in the batch, of the tasks that still wait.\<close>

definition waiting :: "(nat \<times> pending) list \<Rightarrow> nat list" where
  "waiting ts = filter (\<lambda>k. \<not> finished (snd (ts ! k))) [0..<length ts]"

text \<open>An upper bound of the number of times a task can still be resumed.\<close>

definition remaining :: "config \<Rightarrow> pending \<Rightarrow> nat" where
  "remaining cfg p =
     (case p of
        OwnerOf i u \<Rightarrow> 2 * (length (RPC_LIST cfg) - i) + 5
      | TokenURI i u owner \<Rightarrow> 2 * (length (RPC_LIST cfg) - i) + 4
      | Fetching owner uri \<Rightarrow> 3
      | Selecting owner nm img \<Rightarrow> 2
      | Upserting row \<Rightarrow> 1
      | Finished out \<Rightarrow> 0)"

text \<open>
  The tasks of a batch, each with its id, resumed until all have ended. Which of the
  waiting tasks is resumed next depends on when the replies arrive: \<open>pick n\<close> chooses
  among the waiting tasks at step \<open>n\<close>.
\<close>

function runTasks ::
  "config \<Rightarrow> (nat \<Rightarrow> task_env) \<Rightarrow> (nat \<Rightarrow> nat) \<Rightarrow> nat \<Rightarrow> (nat \<times> pending) list \<Rightarrow> sync_state \<Rightarrow>
     (nat \<times> pending) list \<times> sync_state" where
  "runTasks cfg envs pick n ts st =
     (if waiting ts = [] then (ts, st)
      else (let k = waiting ts ! (pick n mod length (waiting ts));
                tid = fst (ts ! k);
                r = resume cfg (envs tid) tid (snd (ts ! k)) st
            in runTasks cfg envs pick (n + 1) (ts[k := (tid, fst r)]) (snd r)))"
  by pat_completeness auto
termination
proof (relation "measure (\<lambda>(cfg, envs, pick, n, ts, st). sum_list (map (\<lambda>t. remaining cfg (snd t)) ts))")
  show "wf (measure (\<lambda>(cfg, envs, pick, n, ts, st). sum_list (map (\<lambda>t. remaining cfg (snd t)) ts)))"
    by simp
next
  fix cfg :: config and envs :: "nat \<Rightarrow> task_env" and pick :: "nat \<Rightarrow> nat" and n :: nat
    and ts :: "(nat \<times> pending) list" and st :: sync_state and k tid r
  assume w: "waiting ts \<noteq> []"
    and k: "k = waiting ts ! (pick n mod length (waiting ts))"
    and tid: "tid = fst (ts ! k)"
    and r: "r = resume cfg (envs tid) tid (snd (ts ! k)) st"
  from w have "pick n mod length (waiting ts) < length (waiting ts)" by simp
  with k have "k \<in> set (waiting ts)" by simp
  then have kl: "k < length ts" and nf: "\<not> finished (snd (ts ! k))" by (simp_all add: waiting_def)
  have less: "remaining cfg (fst (resume cfg e t p s)) < remaining cfg p"
    if "\<not> finished p" for e t p s
    using that
    by (cases p)
       (auto simp: resume_def resume_try_def handler_def loopHead_def remaining_def finished_def
          Let_def split: call.splits prod.splits option.splits if_splits)
  let ?f = "\<lambda>t. remaining cfg (snd t)"
  from kl have "sum_list (map ?f (ts[k := (tid, fst r)])) + ?f (ts ! k)
      = sum_list (map ?f ts) + ?f (tid, fst r)"
    by (induction ts arbitrary: k) (auto split: nat.splits)
  moreover from less [OF nf] r have "?f (tid, fst r) < ?f (ts ! k)" by simp
  ultimately have "sum_list (map ?f (ts[k := (tid, fst r)])) < sum_list (map ?f ts)" by linarith
  then show "((cfg, envs, pick, n + 1, ts[k := (tid, fst r)], snd r), (cfg, envs, pick, n, ts, st))
      \<in> measure (\<lambda>(cfg, envs, pick, n, ts, st). sum_list (map (\<lambda>t. remaining cfg (snd t)) ts))"
    by simp
qed

declare runTasks.simps [simp del]

text \<open>One batch: its tasks started on the state as it is, then resumed until all have
  ended. The result pairs each id with the end of its task.\<close>

definition runBatch ::
  "config \<Rightarrow> (nat \<Rightarrow> task_env) \<Rightarrow> (nat \<Rightarrow> nat) \<Rightarrow> nat list \<Rightarrow> sync_state \<Rightarrow>
     (nat \<times> pending) list \<times> sync_state" where
  "runBatch cfg envs pick ids st =
     runTasks cfg envs pick 0 (map (\<lambda>tid. (tid, start cfg st)) ids) st"

text \<open>
  The outer loop of \<open>main\<close>, from \<open>i\<close> on: the \<open>await\<close> of \<open>Promise.all\<close> lets the loop go
  on when every task of the batch has ended. \<open>sched i\<close> is the order in which the tasks
  of the batch that starts at \<open>i\<close> are resumed. The result lists the batches processed.
\<close>

function syncLoop ::
  "config \<Rightarrow> (nat \<Rightarrow> task_env) \<Rightarrow> (nat \<Rightarrow> nat \<Rightarrow> nat) \<Rightarrow> nat \<Rightarrow> nat \<Rightarrow> sync_state \<Rightarrow>
     (nat \<times> pending) list list \<times> sync_state" where
  "syncLoop cfg envs sched i supply st =
     (if i \<le> supply then
        (case runBatch cfg envs (sched i) (batch i supply) st of
           (outs, st1) \<Rightarrow>
             (case syncLoop cfg envs sched (i + BATCH_SIZE) supply st1 of
                (rest, st2) \<Rightarrow> (outs # rest, st2)))
      else ([], st))"
  by pat_completeness auto
termination
  by (relation "measure (\<lambda>(cfg, envs, sched, i, supply, st). Suc supply - i)")
     (auto simp: BATCH_SIZE_def)

declare syncLoop.simps [simp del]

text \<open>The batches alone, as the two loops of \<open>main\<close> form them.\<close>

function batchesFrom :: "nat \<Rightarrow> nat \<Rightarrow> nat list list" where
  "batchesFrom i supply =
     (if i \<le> supply then batch i supply # batchesFrom (i + BATCH_SIZE) supply else [])"
  by pat_completeness auto
termination
  by (relation "measure (\<lambda>(i, supply). Suc supply - i)") (auto simp: BATCH_SIZE_def)

declare batchesFrom.simps [simp del]

text \<open>
  \<open>main\<close>: \<open>Fatal\<close> is its \<open>catch\<close>, reached when \<open>totalSupply\<close> throws. A task ends
  inside its own \<open>catch\<close>, so the promise of \<open>Promise.all\<close> is never rejected.
\<close>

datatype run_result = Completed | Fatal "string option"

definition main ::
  "config \<Rightarrow> world \<Rightarrow> sync_state \<Rightarrow> run_result \<times> (nat \<times> pending) list list \<times> sync_state" where
  "main cfg w st =
     (case totalSupply w (provider st) of
        Threw m \<Rightarrow> (Fatal m, [], st)
      | Returned supply \<Rightarrow>
          (case syncLoop cfg (task w) (schedule w) 1 supply st of
             (bs, st') \<Rightarrow> (Completed, bs, st')))"

section \<open>What a task observes and writes\<close>

text \<open>
  \<open>observed\<close>: the owner and the metadata pointer a task reads from the chain, if it reads
  them. \<open>writtenRow\<close>: the row \<open>processNFT\<close> hands to \<open>upsert\<close>, if it does. \<open>outcome\<close>:
  how the task ends, \<open>None\<close> being a rejected promise.
\<close>

definition observed :: "config \<Rightarrow> task_env \<Rightarrow> sync_state \<Rightarrow> (string \<times> string) option" where
  "observed cfg e st =
     (case readChain cfg e 0 st [] of
        (Success owner uri, st1, asked) \<Rightarrow> Some (owner, uri)
      | (TokenNotFound, st1, asked) \<Rightarrow> None
      | (ChainUnavailable, st1, asked) \<Rightarrow> None)"

definition writtenRow :: "config \<Rightarrow> task_env \<Rightarrow> nat \<Rightarrow> sync_state \<Rightarrow> metadata_row option" where
  "writtenRow cfg e tid st =
     (case processNFT cfg e tid st of
        Inl err \<Rightarrow> None
      | Inr (out, st') \<Rightarrow>
          if length (upserts st') > length (upserts st) then Some (last (upserts st')) else None)"

definition outcome :: "config \<Rightarrow> task_env \<Rightarrow> nat \<Rightarrow> sync_state \<Rightarrow> task_outcome option" where
  "outcome cfg e tid st =
     (case processNFT cfg e tid st of Inl err \<Rightarrow> None | Inr (out, st') \<Rightarrow> Some out)"

definition listingFields :: "metadata_row \<Rightarrow> json \<times> json \<times> json" where
  "listingFields r = (seaport_order r, price r, order_hash r)"

section \<open>Reading a batch\<close>

text \<open>
  \<open>wrote p\<close>: the task has handed its row to \<open>upsert\<close>. \<open>writers ts\<close>: the \<open>tokenid\<close>s of
  the tasks of \<open>ts\<close> that have. \<open>chainAnswers e\<close>: every call of \<open>ownerOf\<close> and
  \<open>tokenURI\<close> returns, whichever endpoint is asked and in whichever attempt.
  \<open>writeEnd e\<close>: how a task ends once it has handed its row to \<open>upsert\<close>.
\<close>

definition wrote :: "pending \<Rightarrow> bool" where
  "wrote p =
     (case p of
        Upserting row \<Rightarrow> True
      | Finished out \<Rightarrow> (case out of Synced \<Rightarrow> True | DbError msg \<Rightarrow> True | _ \<Rightarrow> False)
      | _ \<Rightarrow> False)"

definition writers :: "(nat \<times> pending) list \<Rightarrow> string list" where
  "writers ts = map (\<lambda>t. toString (fst t)) (filter (\<lambda>t. wrote (snd t)) ts)"

definition chainAnswers :: "task_env \<Rightarrow> bool" where
  "chainAnswers e =
     ((\<forall>u i. \<exists>owner. ownerOf e u i = Returned owner) \<and> (\<forall>u i. \<exists>uri. tokenURI e u i = Returned uri))"

definition writeEnd :: "task_env \<Rightarrow> pending" where
  "writeEnd e = Finished (case upsert_error e of None \<Rightarrow> Synced | Some msg \<Rightarrow> DbError msg)"

text \<open>A task resumed on its own, from where it waits until it ends.\<close>

definition alone ::
  "config \<Rightarrow> task_env \<Rightarrow> nat \<Rightarrow> pending \<Rightarrow> sync_state \<Rightarrow> (nat \<times> pending) list \<times> sync_state" where
  "alone cfg e tid p st = runTasks cfg (\<lambda>t. e) (\<lambda>n. 0) 0 [(tid, p)] st"

section \<open>Reading the retry loop\<close>

text \<open>
  \<open>attemptAt cfg e st j\<close>: what attempt number \<open>j\<close> of a chain read started in \<open>st\<close>
  meets, namely the answer of the endpoint bound after \<open>j\<close> rebinds. \<open>transient\<close>: an
  attempt that failed, and not with a nonexistent-token message.
\<close>

definition attemptAt :: "config \<Rightarrow> task_env \<Rightarrow> sync_state \<Rightarrow> nat \<Rightarrow> (string \<times> string) call" where
  "attemptAt cfg e st j = attempt e (provider ((rebind cfg ^^ j) st)) j"

definition transient :: "(string \<times> string) call \<Rightarrow> bool" where
  "transient r = (case r of Returned x \<Rightarrow> False | Threw m \<Rightarrow> \<not> nonexistent m)"

text \<open>The endpoints asked by the first \<open>k\<close> attempts.\<close>

definition askedUpTo :: "config \<Rightarrow> sync_state \<Rightarrow> nat \<Rightarrow> string list" where
  "askedUpTo cfg st k = map (\<lambda>j. provider ((rebind cfg ^^ j) st)) [0..<k]"

section \<open>Reading the fetcher\<close>

text \<open>
  \<open>directOk\<close>: the pointer passes the test of the direct attempt and that attempt gives a
  document. \<open>gatewayUrls\<close>: the URLs the gateway loop builds, in the order of
  \<open>IPFS_GATEWAYS\<close>.
\<close>

definition directOk :: "(string \<Rightarrow> http_outcome) \<Rightarrow> string \<Rightarrow> bool" where
  "directOk net uri = (isDirect uri \<and> okJson (net uri) \<noteq> None)"

definition gatewayUrls :: "string \<Rightarrow> string list" where
  "gatewayUrls uri = map (\<lambda>g. g @ ipfsHashOf uri) IPFS_GATEWAYS"

text \<open>
  The words of claim C7, read without the script: a pointer is content-addressed when it
  uses the \<open>ipfs://\<close> scheme or has an \<open>/ipfs/\<close> segment, and it is a direct URL when
  it is an HTTP or HTTPS URL (the scheme in either case) that is not content-addressed.
\<close>

definition specContentAddressed :: "string \<Rightarrow> bool" where
  "specContentAddressed p = (startsWith p ''ipfs://'' \<or> includes_str p ''/ipfs/'')"

definition specDirectUrl :: "string \<Rightarrow> bool" where
  "specDirectUrl p =
     ((startsWith (toLowerCase p) ''http://'' \<or> startsWith (toLowerCase p) ''https://'')
      \<and> \<not> specContentAddressed p)"

section \<open>Concrete inputs\<close>

definition cfgPrimary :: config where
  "cfgPrimary =
     \<lparr>APECHAIN_RPC = Some ''https://apechain.calderachain.xyz/http'',
      NFT_CONTRACT_ADDRESS = ''0xC0'', MARKETPLACE_CONTRACT_ADDRESS = ''0x5E''\<rparr>"

text \<open>The configuration when the environment does not set \<open>APECHAIN_RPC\<close>.\<close>

definition cfgNoPrimary :: config where
  "cfgNoPrimary =
     \<lparr>APECHAIN_RPC = None, NFT_CONTRACT_ADDRESS = ''0xC0'', MARKETPLACE_CONTRACT_ADDRESS = ''0x5E''\<rparr>"

text \<open>A chain that answers every call, a server that serves one document at every URL,
  a table that accepts the row.\<close>

definition envServing :: "json \<Rightarrow> task_env" where
  "envServing doc =
     \<lparr>ownerOf = (\<lambda>url i. Returned ''0xAB''),
      tokenURI = (\<lambda>url i. Returned ''https://example.com/7.json''),
      fetch = (\<lambda>url. Response True (Some doc)),
      lookup_fails = False,
      upsert_error = None,
      now = ''2024-01-01T00:00:00.000Z''\<rparr>"

text \<open>Rows with a listing, as the listing subsystem leaves them: the owner column empty,
  null, the observed owner in another case, and another owner.\<close>

definition listedRow :: "string option \<Rightarrow> metadata_row" where
  "listedRow b =
     \<lparr>tokenid = ''7'', nft_contract = ''0xC0'', marketplace_contract = ''0x5E'',
      buyer_address = b, on_chain = False, name = JNull, image = JNull, updatedat = [],
      seaport_order = JObj [(''offerer'', JStr ''0xab'')], price = JNum 0x4014000000000000,
      order_hash = JStr ''0x1f''\<rparr>"

definition tableWith :: "metadata_row \<Rightarrow> string \<Rightarrow> metadata_row option" where
  "tableWith r = Map.empty(tokenid r \<mapsto> r)"

text \<open>The same, with a lookup of the prior row that fails.\<close>

definition envLookupFails :: task_env where
  "envLookupFails = (envServing JNull)\<lparr>lookup_fails := True\<rparr>"

text \<open>The same chain and table, with every HTTP request failing.\<close>

definition envOffline :: task_env where
  "envOffline = (envServing JNull)\<lparr>fetch := (\<lambda>url. NetworkError)\<rparr>"

definition docFoo :: json where
  "docFoo = JObj [(''name'', JStr ''Foo''), (''image'', JStr ''ipfs://xyz'')]"

definition docEmptyImage :: json where
  "docEmptyImage = JObj [(''image'', JStr []), (''image_url'', JStr ''https://x.org/i.png'')]"

text \<open>The same, with the given answers to \<open>ownerOf\<close>; and a chain whose every call
  times out.\<close>

definition envChain :: "(string \<Rightarrow> nat \<Rightarrow> string call) \<Rightarrow> task_env" where
  "envChain f = (envServing JNull)\<lparr>ownerOf := f\<rparr>"

definition envDown :: task_env where
  "envDown = envChain (\<lambda>url i. Threw (Some ''timeout''))"


text \<open>Five tokens: token 2 does not exist, the chain is down for token 3, the others
  are served.\<close>

definition envNonexistent :: task_env where
  "envNonexistent =
     envChain (\<lambda>url i. Threw (Some ''execution reverted: ERC721: owner query for nonexistent token''))"

definition worldMixed :: world where
  "worldMixed =
     \<lparr>totalSupply = (\<lambda>url. Returned 5),
      task = (\<lambda>tid. if tid = 2 then envNonexistent else if tid = 3 then envDown
                      else envServing docFoo),
      schedule = (\<lambda>i n. 0)\<rparr>"

text \<open>
  Two tokens. For token 1 every call times out. For token 2 \<open>ownerOf\<close> always answers
  and \<open>tokenURI\<close> answers on the primary endpoint only. The tasks are resumed as \<open>pick\<close>
  says.
\<close>

definition envPrimaryOnly :: task_env where
  "envPrimaryOnly =
     (envServing docFoo)
       \<lparr>tokenURI := (\<lambda>url i. if url = ''https://apechain.calderachain.xyz/http''
                                then Returned ''https://example.com/7.json''
                                else Threw (Some ''timeout''))\<rparr>"

definition worldRace :: "(nat \<Rightarrow> nat) \<Rightarrow> world" where
  "worldRace pick =
     \<lparr>totalSupply = (\<lambda>url. Returned 2),
      task = (\<lambda>tid. if tid = 1 then envDown else envPrimaryOnly),
      schedule = (\<lambda>i. pick)\<rparr>"

text \<open>A chain on which the supply cannot be read.\<close>

definition worldNoSupply :: world where
  "worldNoSupply =
     \<lparr>totalSupply = (\<lambda>url. Threw (Some ''could not detect network'')),
      task = (\<lambda>tid. envServing docFoo),
      schedule = (\<lambda>i n. 0)\<rparr>"

text \<open>A chain whose first attempt times out and whose later attempts answer.\<close>

definition envFlaky :: task_env where
  "envFlaky = envChain (\<lambda>url i. if i = 0 then Threw (Some ''timeout'') else Returned ''0xAB'')"

text \<open>A network on which the first two gateways answer 404 for \<open>QmHash/7\<close>, the third
  serves the document and the fourth would serve another; and a server that serves the
  document at one direct URL.\<close>

definition netThird :: "string \<Rightarrow> http_outcome" where
  "netThird url =
     (if url = ''https://gateway.pinata.cloud/ipfs/QmHash/7'' then Response True (Some docFoo)
      else if url = ''https://cloudflare-ipfs.com/ipfs/QmHash/7'' then Response True (Some JNull)
      else Response False None)"

definition netDirect :: "string \<Rightarrow> http_outcome" where
  "netDirect url =
     (if url = ''https://example.com/7.json'' then Response True (Some docFoo)
      else NetworkError)"

text \<open>The same two networks answering requests, whatever their options; and a server
  whose host name contains \<open>ipfs\<close>, serving the document at one URL.\<close>

definition netThird_req :: "request \<Rightarrow> http_outcome" where
  "netThird_req r = netThird (req_url r)"

definition netDirect_req :: "request \<Rightarrow> http_outcome" where
  "netDirect_req r = netDirect (req_url r)"

definition netIpfsHost :: "string \<Rightarrow> http_outcome" where
  "netIpfsHost url =
     (if url = ''http://ipfs.example.com/meta/7'' then Response True (Some docFoo)
      else NetworkError)"

definition netIpfsHost_req :: "request \<Rightarrow> http_outcome" where
  "netIpfsHost_req r = netIpfsHost (req_url r)"

section \<open>The task: what is read is what is written\<close>

lemma getProvider_keeps:
  "getProvider cfg st = (p, st') \<Longrightarrow> store st' = store st \<and> upserts st' = upserts st"
  by (auto simp: getProvider_def Let_def split: option.splits if_splits)

lemma rebind_keeps [simp]:
  "store (rebind cfg st) = store st" "upserts (rebind cfg st) = upserts st"
  by (auto simp: rebind_def dest: getProvider_keeps split: prod.splits)

lemma readChain_keeps:
  "readChain cfg e i st asked = (r, st1, asked') \<Longrightarrow>
     store st1 = store st \<and> upserts st1 = upserts st"
proof (induction cfg e i st asked rule: readChain.induct)
  case (1 cfg e i st asked)
  show ?case
  proof (cases "i < length (RPC_LIST cfg)")
    case False
    with "1.prems" show ?thesis by (simp add: readChain.simps)
  next
    case True
    show ?thesis
    proof (cases "attempt e (provider st) i")
      case (Returned ou)
      with True "1.prems" show ?thesis
        by (cases ou) (simp add: readChain.simps)
    next
      case (Threw m)
      show ?thesis
      proof (cases "nonexistent m")
        case True
        with \<open>i < length (RPC_LIST cfg)\<close> Threw "1.prems" show ?thesis
          by (simp add: readChain.simps)
      next
        case False
        with \<open>i < length (RPC_LIST cfg)\<close> Threw "1.prems"
        have "readChain cfg e (i + 1) (rebind cfg st) (asked @ [provider st]) = (r, st1, asked')"
          by (simp add: readChain.simps)
        from "1.IH" [OF \<open>i < length (RPC_LIST cfg)\<close> Threw False this]
        show ?thesis by simp
      qed
    qed
  qed
qed

lemma writtenRow_observed:
  assumes "observed cfg e st = Some (owner, uri)"
  shows "writtenRow cfg e tid st =
           Some (upsertData cfg tid owner
                   (fst (metadataFields tid (fst (fetchMetadataWithRetry (fetch e) uri))))
                   (snd (metadataFields tid (fst (fetchMetadataWithRetry (fetch e) uri))))
                   (lookupData e st tid) (now e))"
proof -
  obtain r st1 asked where rc: "readChain cfg e 0 st [] = (r, st1, asked)"
    by (cases "readChain cfg e 0 st []") auto
  with assms have r: "r = Success owner uri"
    by (auto simp: observed_def split: read_result.splits)
  from readChain_keeps [OF rc] have k: "store st1 = store st" "upserts st1 = upserts st"
    by simp_all
  then have l: "lookupData e st1 tid = lookupData e st tid" by (simp add: lookupData_def)
  show ?thesis
    by (cases "upsert_error e")
       (simp_all add: writtenRow_def processNFT_def processNFT_try_def rc r k l Let_def
          split: prod.splits)
qed

lemma listingFields_upsertData:
  "listingFields (upsertData cfg tid owner nm img existing stamp) =
     (case existing of
        None \<Rightarrow> (JNull, JNull, JNull)
      | Some ex \<Rightarrow>
          if shouldWipeOrder existing owner then (JNull, JNull, JNull) else listingFields ex)"
  by (simp add: listingFields_def upsertData_def Let_def split: option.splits)

lemma name_image_upsertData:
  "name (upsertData cfg tid owner nm img existing stamp) = nm"
  "image (upsertData cfg tid owner nm img existing stamp) = img"
  by (simp_all add: upsertData_def Let_def split: option.splits)

lemma tokenid_upsertData: "tokenid (upsertData cfg tid owner nm img existing stamp) = toString tid"
  by (simp add: upsertData_def Let_def split: option.splits)

lemma length_RPC_LIST: "length (RPC_LIST cfg) = 4"
  by (simp add: RPC_LIST_def)

text \<open>No task rejects: whatever leaves the \<open>try\<close> of \<open>processNFT\<close> ends in its \<open>catch\<close>.\<close>

lemma processNFT_Inr: "\<exists>out st'. processNFT cfg e tid st = Inr (out, st')"
  by (cases "processNFT_try cfg e tid st") (auto simp: processNFT_def)

section \<open>Listing fields of the written row\<close>

text \<open>
  Claim C1, as the code has it. When a task has read an owner from the chain, it hands a
  row to \<open>upsert\<close>, and the three listing fields of that row are: null when the table
  has no row for the id; null when the table's row has a non-empty \<open>buyer_address\<close>
  that differs from the observed owner after lower-casing both; and, when the lookup
  succeeds and the row's \<open>buyer_address\<close> equals the observed owner after lower-casing
  both, the values the lookup returned for the row. (The claim says null for every row
  whose owner differs; the code's guard \<^verbatim>\<open>existingData.buyer_address &&\<close> exempts a
  null or empty owner column.)
\<close>

theorem listing_fields_of_written_row:
  assumes "observed cfg e st = Some (owner, uri)"
  shows "(store st (toString tid) = None \<longrightarrow>
            map_option listingFields (writtenRow cfg e tid st) = Some (JNull, JNull, JNull))
       \<and> (store st (toString tid) = Some ex \<and> buyer_address ex = Some b \<and> b \<noteq> []
            \<and> toLowerCase b \<noteq> toLowerCase owner \<longrightarrow>
            map_option listingFields (writtenRow cfg e tid st) = Some (JNull, JNull, JNull))
       \<and> (\<not> lookup_fails e \<and> store st (toString tid) = Some ex \<and> buyer_address ex = Some b
            \<and> toLowerCase b = toLowerCase owner \<longrightarrow>
            map_option listingFields (writtenRow cfg e tid st) = Some (listingFields ex))"
  by (simp add: writtenRow_observed [OF assms] listingFields_upsertData shouldWipeOrder_def
        lookupData_def)

text \<open>The three cases at token 7, owner \<open>0xAB\<close> on chain: no row, a row owned by
  \<open>0xCD\<close>, a row owned by \<open>0xab\<close> that the lookup returns.\<close>

theorem listing_fields_of_written_row_witness:
  "observed cfgPrimary (envServing JNull) (initState cfgPrimary Map.empty)
     = Some (''0xAB'', ''https://example.com/7.json'')
   \<and> store (initState cfgPrimary Map.empty) (toString 7) = None
   \<and> map_option listingFields
        (writtenRow cfgPrimary (envServing JNull) 7 (initState cfgPrimary Map.empty))
       = Some (JNull, JNull, JNull)
   \<and> observed cfgPrimary (envServing JNull)
        (initState cfgPrimary (tableWith (listedRow (Some ''0xCD''))))
       = Some (''0xAB'', ''https://example.com/7.json'')
   \<and> store (initState cfgPrimary (tableWith (listedRow (Some ''0xCD'')))) (toString 7)
       = Some (listedRow (Some ''0xCD''))
   \<and> buyer_address (listedRow (Some ''0xCD'')) = Some ''0xCD''
   \<and> ''0xCD'' \<noteq> [] \<and> toLowerCase ''0xCD'' \<noteq> toLowerCase ''0xAB''
   \<and> map_option listingFields
        (writtenRow cfgPrimary (envServing JNull) 7
           (initState cfgPrimary (tableWith (listedRow (Some ''0xCD'')))))
       = Some (JNull, JNull, JNull)
   \<and> observed cfgPrimary (envServing JNull)
        (initState cfgPrimary (tableWith (listedRow (Some ''0xab''))))
       = Some (''0xAB'', ''https://example.com/7.json'')
   \<and> store (initState cfgPrimary (tableWith (listedRow (Some ''0xab'')))) (toString 7)
       = Some (listedRow (Some ''0xab''))
   \<and> buyer_address (listedRow (Some ''0xab'')) = Some ''0xab''
   \<and> toLowerCase ''0xab'' = toLowerCase ''0xAB''
   \<and> lookup_fails (envServing JNull) = False
   \<and> map_option listingFields
        (writtenRow cfgPrimary (envServing JNull) 7
           (initState cfgPrimary (tableWith (listedRow (Some ''0xab'')))))
       = Some (listingFields (listedRow (Some ''0xab'')))"
proof -
  let ?e = "envServing JNull"
  let ?s0 = "initState cfgPrimary Map.empty"
  let ?s1 = "initState cfgPrimary (tableWith (listedRow (Some ''0xCD'')))"
  let ?s2 = "initState cfgPrimary (tableWith (listedRow (Some ''0xab'')))"
  have o0: "observed cfgPrimary ?e ?s0 = Some (''0xAB'', ''https://example.com/7.json'')"
    by code_simp
  have o1: "observed cfgPrimary ?e ?s1 = Some (''0xAB'', ''https://example.com/7.json'')"
    by code_simp
  have o2: "observed cfgPrimary ?e ?s2 = Some (''0xAB'', ''https://example.com/7.json'')"
    by code_simp
  have l0: "store ?s0 (toString 7) = None" by code_simp
  have l1: "store ?s1 (toString 7) = Some (listedRow (Some ''0xCD''))" by code_simp
  have l2: "store ?s2 (toString 7) = Some (listedRow (Some ''0xab''))" by code_simp
  have b1: "buyer_address (listedRow (Some ''0xCD'')) = Some ''0xCD''"
    by (simp add: listedRow_def)
  have b2: "buyer_address (listedRow (Some ''0xab'')) = Some ''0xab''"
    by (simp add: listedRow_def)
  have c1: "toLowerCase ''0xCD'' \<noteq> toLowerCase ''0xAB''" by code_simp
  have c2: "toLowerCase ''0xab'' = toLowerCase ''0xAB''" by code_simp
  have f: "lookup_fails ?e = False" by (simp add: envServing_def)
  note t0 = listing_fields_of_written_row [OF o0, where tid = 7]
  note t1 = listing_fields_of_written_row
    [OF o1, where tid = 7 and ex = "listedRow (Some ''0xCD'')" and b = "''0xCD''"]
  note t2 = listing_fields_of_written_row
    [OF o2, where tid = 7 and ex = "listedRow (Some ''0xab'')" and b = "''0xab''"]
  from t0 l0
  have r0: "map_option listingFields (writtenRow cfgPrimary ?e 7 ?s0) = Some (JNull, JNull, JNull)"
    by blast
  from t1 l1 b1 c1
  have r1: "map_option listingFields (writtenRow cfgPrimary ?e 7 ?s1) = Some (JNull, JNull, JNull)"
    by blast
  from t2 l2 b2 c2 f
  have r2: "map_option listingFields (writtenRow cfgPrimary ?e 7 ?s2)
              = Some (listingFields (listedRow (Some ''0xab'')))"
    by blast
  from o0 o1 o2 l0 l1 l2 b1 b2 c1 c2 f r0 r1 r2 show ?thesis by blast
qed

text \<open>
  Claim C1 as stated fails: the table's row for token 7 has the empty string as its
  owner, the chain says \<open>0xAB\<close>, the two differ in any case, and the row written keeps
  the listing.
\<close>

theorem listing_kept_though_owner_differs:
  "observed cfgPrimary (envServing JNull) (initState cfgPrimary (tableWith (listedRow (Some []))))
     = Some (''0xAB'', ''https://example.com/7.json'')
   \<and> store (initState cfgPrimary (tableWith (listedRow (Some [])))) (toString 7)
       = Some (listedRow (Some []))
   \<and> buyer_address (listedRow (Some [])) = Some []
   \<and> toLowerCase [] \<noteq> toLowerCase ''0xAB''
   \<and> map_option listingFields
        (writtenRow cfgPrimary (envServing JNull) 7
           (initState cfgPrimary (tableWith (listedRow (Some [])))))
       = Some (JObj [(''offerer'', JStr ''0xab'')], JNum 0x4014000000000000, JStr ''0x1f'')"
  by code_simp

section \<open>A row without an owner\<close>

text \<open>
  When the lookup succeeds, a task has read an owner from the chain and the table has a
  row for the id: if the row's \<open>buyer_address\<close> is null or empty, the listing fields of
  the written row are the ones the lookup returned; and in every case they are null
  exactly when the row's \<open>buyer_address\<close> is present, non-empty and differs from the
  observed owner after lower-casing both.
\<close>

lemma empty_owner_keeps_listing:
  assumes "observed cfg e st = Some (owner, uri)" and "store st (toString tid) = Some ex"
    and "\<not> lookup_fails e"
  shows "(buyer_address ex = None \<or> buyer_address ex = Some [] \<longrightarrow>
            map_option listingFields (writtenRow cfg e tid st) = Some (listingFields ex))
       \<and> map_option listingFields (writtenRow cfg e tid st) =
            Some (if \<exists>b. buyer_address ex = Some b \<and> b \<noteq> [] \<and> toLowerCase b \<noteq> toLowerCase owner
                  then (JNull, JNull, JNull) else listingFields ex)"
  using assms(2,3)
  by (auto simp: writtenRow_observed [OF assms(1)] listingFields_upsertData shouldWipeOrder_def
           lookupData_def split: option.splits)

text \<open>
  Claim C10 fails on the code when the lookup of the prior row fails. The table's row
  for token 7 has a null owner and a listing, the chain says \<open>0xAB\<close>, and the lookup's
  reply carries an error and no data. The script keeps only \<open>data\<close> of the reply, takes
  the row as absent, and the row it hands to \<open>upsert\<close> has the three listing fields
  null: the listing is not carried forward, and it is wiped although the prior owner is
  not present.
\<close>

theorem failed_lookup_wipes_listing:
  "store (initState cfgPrimary (tableWith (listedRow None))) (toString 7) = Some (listedRow None)
   \<and> buyer_address (listedRow None) = None
   \<and> listingFields (listedRow None)
       = (JObj [(''offerer'', JStr ''0xab'')], JNum 0x4014000000000000, JStr ''0x1f'')
   \<and> lookup_fails envLookupFails = True
   \<and> observed cfgPrimary envLookupFails (initState cfgPrimary (tableWith (listedRow None)))
       = Some (''0xAB'', ''https://example.com/7.json'')
   \<and> map_option listingFields
        (writtenRow cfgPrimary envLookupFails 7 (initState cfgPrimary (tableWith (listedRow None))))
       = Some (JNull, JNull, JNull)"
  by code_simp

section \<open>Name and image of the written row\<close>

text \<open>
  Claim C4, as the code has it. When a task has read an owner and a pointer from the
  chain, the row it writes has: after a failed fetch, the name \<open>NFT #<id>\<close> and a null
  image; after a fetch that gave a document \<open>m\<close>, the name \<open>m.name\<close> when \<open>m\<close> and
  \<open>m.name\<close> are truthy and \<open>NFT #<id>\<close> otherwise, and the image \<open>m.image\<close> when truthy,
  else \<open>m.image_url\<close> when truthy, else null. (The claim takes \<open>m.image\<close> whenever it is
  present; the code passes over one that is present and falsy, such as the empty
  string.)
\<close>

theorem name_image_of_written_row:
  assumes "observed cfg e st = Some (owner, uri)"
  shows "(fst (fetchMetadataWithRetry (fetch e) uri) = Inl err \<longrightarrow>
            map_option name (writtenRow cfg e tid st) = Some (defaultName tid)
          \<and> map_option image (writtenRow cfg e tid st) = Some JNull)
       \<and> (fst (fetchMetadataWithRetry (fetch e) uri) = Inr m \<and> truthy m
            \<and> getProp m ''name'' = Some v \<and> truthy v \<longrightarrow>
            map_option name (writtenRow cfg e tid st) = Some v)
       \<and> (fst (fetchMetadataWithRetry (fetch e) uri) = Inr m
            \<and> \<not> (truthy m \<and> truthyProp (getProp m ''name'')) \<longrightarrow>
            map_option name (writtenRow cfg e tid st) = Some (defaultName tid))
       \<and> (fst (fetchMetadataWithRetry (fetch e) uri) = Inr m \<and> truthy m
            \<and> getProp m ''image'' = Some v \<and> truthy v \<longrightarrow>
            map_option image (writtenRow cfg e tid st) = Some v)
       \<and> (fst (fetchMetadataWithRetry (fetch e) uri) = Inr m \<and> truthy m
            \<and> \<not> truthyProp (getProp m ''image'')
            \<and> getProp m ''image_url'' = Some v \<and> truthy v \<longrightarrow>
            map_option image (writtenRow cfg e tid st) = Some v)
       \<and> (fst (fetchMetadataWithRetry (fetch e) uri) = Inr m
            \<and> \<not> (truthy m \<and> (truthyProp (getProp m ''image'')
                               \<or> truthyProp (getProp m ''image_url''))) \<longrightarrow>
            map_option image (writtenRow cfg e tid st) = Some JNull)"
  by (auto simp: writtenRow_observed [OF assms] name_image_upsertData metadataFields_def
        truthyOr_def truthyProp_def split: option.splits)

theorem name_image_of_written_row_witness:
  "observed cfgPrimary envOffline (initState cfgPrimary Map.empty)
     = Some (''0xAB'', ''https://example.com/7.json'')
   \<and> fst (fetchMetadataWithRetry (fetch envOffline) ''https://example.com/7.json'')
       = Inl MetadataUnavailable
   \<and> map_option name (writtenRow cfgPrimary envOffline 7 (initState cfgPrimary Map.empty))
       = Some (JStr ''NFT #7'')
   \<and> map_option image (writtenRow cfgPrimary envOffline 7 (initState cfgPrimary Map.empty))
       = Some JNull
   \<and> observed cfgPrimary (envServing docFoo) (initState cfgPrimary Map.empty)
       = Some (''0xAB'', ''https://example.com/7.json'')
   \<and> fst (fetchMetadataWithRetry (fetch (envServing docFoo)) ''https://example.com/7.json'')
       = Inr docFoo
   \<and> truthy docFoo
   \<and> getProp docFoo ''name'' = Some (JStr ''Foo'') \<and> truthy (JStr ''Foo'')
   \<and> getProp docFoo ''image'' = Some (JStr ''ipfs://xyz'') \<and> truthy (JStr ''ipfs://xyz'')
   \<and> map_option name (writtenRow cfgPrimary (envServing docFoo) 7 (initState cfgPrimary Map.empty))
       = Some (JStr ''Foo'')
   \<and> map_option image (writtenRow cfgPrimary (envServing docFoo) 7 (initState cfgPrimary Map.empty))
       = Some (JStr ''ipfs://xyz'')
   \<and> observed cfgPrimary (envServing docEmptyImage) (initState cfgPrimary Map.empty)
       = Some (''0xAB'', ''https://example.com/7.json'')
   \<and> fst (fetchMetadataWithRetry (fetch (envServing docEmptyImage)) ''https://example.com/7.json'')
       = Inr docEmptyImage
   \<and> truthy docEmptyImage
   \<and> \<not> truthyProp (getProp docEmptyImage ''name'')
   \<and> \<not> truthyProp (getProp docEmptyImage ''image'')
   \<and> getProp docEmptyImage ''image_url'' = Some (JStr ''https://x.org/i.png'')
   \<and> truthy (JStr ''https://x.org/i.png'')
   \<and> map_option name
        (writtenRow cfgPrimary (envServing docEmptyImage) 7 (initState cfgPrimary Map.empty))
       = Some (JStr ''NFT #7'')
   \<and> map_option image
        (writtenRow cfgPrimary (envServing docEmptyImage) 7 (initState cfgPrimary Map.empty))
       = Some (JStr ''https://x.org/i.png'')
   \<and> observed cfgPrimary (envServing JNull) (initState cfgPrimary Map.empty)
       = Some (''0xAB'', ''https://example.com/7.json'')
   \<and> fst (fetchMetadataWithRetry (fetch (envServing JNull)) ''https://example.com/7.json'')
       = Inr JNull
   \<and> \<not> truthy JNull
   \<and> map_option image (writtenRow cfgPrimary (envServing JNull) 7 (initState cfgPrimary Map.empty))
       = Some JNull"
proof -
  let ?s = "initState cfgPrimary Map.empty"
  let ?u = "''https://example.com/7.json''"
  have o1: "observed cfgPrimary envOffline ?s = Some (''0xAB'', ?u)" by code_simp
  have f1: "fst (fetchMetadataWithRetry (fetch envOffline) ?u) = Inl MetadataUnavailable"
    by code_simp
  have d: "defaultName 7 = JStr ''NFT #7''" by code_simp
  from name_image_of_written_row [OF o1, where tid = 7 and err = MetadataUnavailable] f1 d
  have r1: "map_option name (writtenRow cfgPrimary envOffline 7 ?s) = Some (JStr ''NFT #7'')"
           "map_option image (writtenRow cfgPrimary envOffline 7 ?s) = Some JNull"
    by simp_all
  have o2: "observed cfgPrimary (envServing docFoo) ?s = Some (''0xAB'', ?u)" by code_simp
  have f2: "fst (fetchMetadataWithRetry (fetch (envServing docFoo)) ?u) = Inr docFoo"
    by code_simp
  have t: "truthy docFoo" by (simp add: docFoo_def)
  have pn: "getProp docFoo ''name'' = Some (JStr ''Foo'')" by (simp add: docFoo_def)
  have pi: "getProp docFoo ''image'' = Some (JStr ''ipfs://xyz'')" by (simp add: docFoo_def)
  have tn: "truthy (JStr ''Foo'')" "truthy (JStr ''ipfs://xyz'')" by simp_all
  from name_image_of_written_row [OF o2, where tid = 7 and m = docFoo and v = "JStr ''Foo''"]
    f2 t pn tn
  have r2: "map_option name (writtenRow cfgPrimary (envServing docFoo) 7 ?s) = Some (JStr ''Foo'')"
    by blast
  from name_image_of_written_row [OF o2, where tid = 7 and m = docFoo and v = "JStr ''ipfs://xyz''"]
    f2 t pi tn
  have r3: "map_option image (writtenRow cfgPrimary (envServing docFoo) 7 ?s) = Some (JStr ''ipfs://xyz'')"
    by blast
  have o3: "observed cfgPrimary (envServing docEmptyImage) ?s = Some (''0xAB'', ?u)"
    by code_simp
  have f3: "fst (fetchMetadataWithRetry (fetch (envServing docEmptyImage)) ?u) = Inr docEmptyImage"
    by code_simp
  have t3: "truthy docEmptyImage" by (simp add: docEmptyImage_def)
  have n3: "\<not> truthyProp (getProp docEmptyImage ''name'')"
    by (simp add: docEmptyImage_def truthyProp_def)
  have i3: "\<not> truthyProp (getProp docEmptyImage ''image'')"
    by (simp add: docEmptyImage_def truthyProp_def)
  have u3: "getProp docEmptyImage ''image_url'' = Some (JStr ''https://x.org/i.png'')"
    by (simp add: docEmptyImage_def)
  have tu3: "truthy (JStr ''https://x.org/i.png'')" by simp
  note k3 = name_image_of_written_row
    [OF o3, where tid = 7 and m = docEmptyImage and v = "JStr ''https://x.org/i.png''"]
  from k3 f3 n3 d
  have r4: "map_option name (writtenRow cfgPrimary (envServing docEmptyImage) 7 ?s)
              = Some (JStr ''NFT #7'')"
    by simp
  from k3 f3 t3 i3 u3 tu3
  have r5: "map_option image (writtenRow cfgPrimary (envServing docEmptyImage) 7 ?s)
              = Some (JStr ''https://x.org/i.png'')"
    by blast
  have o4: "observed cfgPrimary (envServing JNull) ?s = Some (''0xAB'', ?u)" by code_simp
  have f4: "fst (fetchMetadataWithRetry (fetch (envServing JNull)) ?u) = Inr JNull"
    by code_simp
  have t4: "\<not> truthy JNull" by simp
  from name_image_of_written_row [OF o4, where tid = 7 and m = JNull] f4 t4
  have r6: "map_option image (writtenRow cfgPrimary (envServing JNull) 7 ?s) = Some JNull"
    by blast
  from o1 f1 r1 o2 f2 t pn pi tn r2 r3 o3 f3 t3 n3 i3 u3 tu3 r4 r5 o4 f4 t4 r6
  show ?thesis by blast
qed

text \<open>
  Claim C4 as stated fails: the document has an \<open>image\<close> field, the empty string, and
  an \<open>image_url\<close>; the row written has the \<open>image_url\<close>, not the \<open>image\<close>.
\<close>

theorem empty_image_is_passed_over:
  "observed cfgPrimary (envServing docEmptyImage) (initState cfgPrimary Map.empty)
     = Some (''0xAB'', ''https://example.com/7.json'')
   \<and> fst (fetchMetadataWithRetry (fetch (envServing docEmptyImage)) ''https://example.com/7.json'')
       = Inr docEmptyImage
   \<and> getProp docEmptyImage ''image'' = Some (JStr [])
   \<and> map_option image
        (writtenRow cfgPrimary (envServing docEmptyImage) 7 (initState cfgPrimary Map.empty))
       = Some (JStr ''https://x.org/i.png'')
   \<and> JStr ''https://x.org/i.png'' \<noteq> JStr []"
  by code_simp

section \<open>Link resolver\<close>

lemma startsWith_iff: "startsWith s p \<longleftrightarrow> (\<exists>r. s = p @ r)"
  by (induction s p rule: startsWith.induct) auto

lemma indexOf_startsWith: "startsWith s p \<Longrightarrow> indexOf s p = Some 0"
  by (cases s; cases p) auto

lemma getSubstitution_plain:
  "\<not> hasPattern r \<Longrightarrow> getSubstitution m b a r = r"
  by (induction m b a r rule: getSubstitution.induct) auto

lemma replace_prefix:
  "replace (p @ r) p g = getSubstitution p [] r g @ r"
proof -
  have "startsWith (p @ r) p" by (simp add: startsWith_iff)
  then have "indexOf (p @ r) p = Some 0" by (rule indexOf_startsWith)
  then show ?thesis by (simp add: replace_def)
qed

text \<open>
  What \<open>resolveLink\<close> does for every input. It gives null for a null or empty pointer;
  for a pointer that starts with \<open>ipfs://\<close> it gives the replacement text made from the
  gateway, followed by the rest of the pointer, and that text is the gateway itself when
  the gateway contains none of the four patterns; any other pointer comes back
  unchanged.
\<close>

lemma resolveLink_cases:
  "resolveLink None gw = None
   \<and> resolveLink (Some []) gw = None
   \<and> resolveLink (Some (''ipfs://'' @ r)) (Some g)
       = Some (getSubstitution ''ipfs://'' [] r g @ r)
   \<and> (\<not> hasPattern g \<longrightarrow> resolveLink (Some (''ipfs://'' @ r)) (Some g) = Some (g @ r))
   \<and> resolveLink (Some (''ipfs://'' @ r)) None = Some (''https://ipfs.io/ipfs/'' @ r)
   \<and> (u \<noteq> [] \<and> \<not> startsWith u ''ipfs://'' \<longrightarrow> resolveLink (Some u) gw = Some u)
   \<and> resolveLink (Some ''ipfs://abc123'') (Some ''https://ipfs.io/ipfs/'')
       = Some ''https://ipfs.io/ipfs/abc123''"
proof -
  have pre: "startsWith (''ipfs://'' @ r) ''ipfs://''" by (simp add: startsWith_iff)
  have ne: "''ipfs://'' @ r \<noteq> []" by simp
  have gen: "resolveLink (Some (''ipfs://'' @ r)) (Some g')
       = Some (getSubstitution ''ipfs://'' [] r g' @ r)" for g'
    using pre replace_prefix [of "''ipfs://''" r g'] by (simp add: resolveLink_def)
  have dflt: "resolveLink (Some (''ipfs://'' @ r)) None = Some (''https://ipfs.io/ipfs/'' @ r)"
    using pre replace_prefix [of "''ipfs://''" r "''https://ipfs.io/ipfs/''"]
    by (simp add: resolveLink_def)
  have plain: "\<not> hasPattern g \<longrightarrow> resolveLink (Some (''ipfs://'' @ r)) (Some g) = Some (g @ r)"
    by (metis gen getSubstitution_plain)
  have other: "u \<noteq> [] \<and> \<not> startsWith u ''ipfs://'' \<longrightarrow> resolveLink (Some u) gw = Some u"
    by (simp add: resolveLink_def)
  have ex: "resolveLink (Some ''ipfs://abc123'') (Some ''https://ipfs.io/ipfs/'')
       = Some ''https://ipfs.io/ipfs/abc123''"
    by (simp add: resolveLink_def replace_def)
  have nul: "resolveLink None gw = None" "resolveLink (Some []) gw = None"
    by (simp_all add: resolveLink_def)
  from nul gen plain dflt other ex show ?thesis by blast
qed

text \<open>A \<open>$\<close> that starts none of the four patterns stands for itself.\<close>

lemma resolveLink_lone_dollar:
  "resolveLink (Some ''ipfs://abc'') (Some ''https://g.io/$1/a$b/$'') = Some ''https://g.io/$1/a$b/$abc''"
  by (simp add: resolveLink_def replace_def)


section \<open>Endpoint rotator\<close>

text \<open>With \<open>APECHAIN_RPC\<close> set, \<open>getProvider\<close> hands out the list position of the cursor
  and moves the cursor to the next position.\<close>

lemma getProvider_rotates:
  assumes "APECHAIN_RPC cfg = Some u" and "u \<noteq> []"
  shows "\<exists>v. RPC_LIST cfg ! (providerIndex st mod length (RPC_LIST cfg)) = Some v
           \<and> getProvider cfg st = (v, st\<lparr>providerIndex := providerIndex st + 1\<rparr>)"
    and "(providerIndex st + 1) mod length (RPC_LIST cfg)
           \<noteq> providerIndex st mod length (RPC_LIST cfg)"
proof -
  have "providerIndex st mod 4 < 4" by simp
  then have "providerIndex st mod 4 = 0 \<or> providerIndex st mod 4 = 1
      \<or> providerIndex st mod 4 = 2 \<or> providerIndex st mod 4 = 3"
    by arith
  with assms
  show "\<exists>v. RPC_LIST cfg ! (providerIndex st mod length (RPC_LIST cfg)) = Some v
           \<and> getProvider cfg st = (v, st\<lparr>providerIndex := providerIndex st + 1\<rparr>)"
    by (auto simp: getProvider_def RPC_LIST_def)
  show "(providerIndex st + 1) mod length (RPC_LIST cfg)
           \<noteq> providerIndex st mod length (RPC_LIST cfg)"
    by (simp add: RPC_LIST_def) presburger
qed

text \<open>Without it, the state after loading has the cursor at 0 and the fallback endpoint
  bound, and neither \<open>getProvider\<close> nor a rebind changes it.\<close>

lemma initState_cfgNoPrimary:
  "initState cfgNoPrimary Map.empty =
     \<lparr>providerIndex = 0, provider = ''https://rpc.apechain.com/http'',
      store = Map.empty, upserts = []\<rparr>"
  by (simp add: initState_def rebind_def getProvider_def RPC_LIST_def cfgNoPrimary_def)

lemma getProvider_cfgNoPrimary:
  "getProvider cfgNoPrimary (initState cfgNoPrimary Map.empty)
     = (''https://rpc.apechain.com/http'', initState cfgNoPrimary Map.empty)"
  unfolding initState_cfgNoPrimary
  by (simp add: getProvider_def RPC_LIST_def cfgNoPrimary_def)

lemma rebind_cfgNoPrimary:
  "rebind cfgNoPrimary (initState cfgNoPrimary Map.empty) = initState cfgNoPrimary Map.empty"
  unfolding rebind_def getProvider_cfgNoPrimary by (simp add: initState_cfgNoPrimary)

text \<open>
  Claim C9 fails on the code when \<open>APECHAIN_RPC\<close> is not set. Position 0 of the list is
  then empty, and \<open>getProvider\<close> returns the fallback endpoint before it reaches
  \<open>providerIndex++\<close>: the cursor stays at 0, and the next call reads position 0 again
  and hands out the same endpoint.
\<close>

theorem getProvider_stuck_without_primary:
  "providerIndex (initState cfgNoPrimary Map.empty) = 0
   \<and> RPC_LIST cfgNoPrimary ! (0 mod length (RPC_LIST cfgNoPrimary)) = None
   \<and> fst (getProvider cfgNoPrimary (initState cfgNoPrimary Map.empty))
       = ''https://rpc.apechain.com/http''
   \<and> providerIndex (snd (getProvider cfgNoPrimary (initState cfgNoPrimary Map.empty))) = 0
   \<and> fst (getProvider cfgNoPrimary
             (snd (getProvider cfgNoPrimary (initState cfgNoPrimary Map.empty))))
       = ''https://rpc.apechain.com/http''
   \<and> providerIndex
         (snd (getProvider cfgNoPrimary
                 (snd (getProvider cfgNoPrimary (initState cfgNoPrimary Map.empty))))) = 0"
proof -
  have "RPC_LIST cfgNoPrimary ! (0 mod length (RPC_LIST cfgNoPrimary)) = None"
    by (simp add: RPC_LIST_def cfgNoPrimary_def)
  moreover have "providerIndex (initState cfgNoPrimary Map.empty) = 0"
    by (simp add: initState_cfgNoPrimary)
  ultimately show ?thesis by (simp add: getProvider_cfgNoPrimary)
qed

text \<open>
  Claim C2 fails on the code for the same reason, in its clause on rotation: with
  \<open>APECHAIN_RPC\<close> not set, a failed attempt is followed by a rebind to the endpoint just
  asked. A read whose every attempt times out asks the fallback endpoint four times,
  and one whose first attempt times out gets its answer from a second request to the
  same endpoint.
\<close>

theorem chain_read_retries_same_endpoint:
  "readChain cfgNoPrimary envDown 0 (initState cfgNoPrimary Map.empty) []
     = (ChainUnavailable, initState cfgNoPrimary Map.empty,
        [''https://rpc.apechain.com/http'', ''https://rpc.apechain.com/http'',
         ''https://rpc.apechain.com/http'', ''https://rpc.apechain.com/http''])
   \<and> readChain cfgNoPrimary envFlaky 0 (initState cfgNoPrimary Map.empty) []
     = (Success ''0xAB'' ''https://example.com/7.json'', initState cfgNoPrimary Map.empty,
        [''https://rpc.apechain.com/http'', ''https://rpc.apechain.com/http''])"
proof -
  let ?s = "initState cfgNoPrimary Map.empty"
  have a: "attempt envDown u i = Threw (Some ''timeout'')" for u i
    by (simp add: attempt_def envDown_def envChain_def envServing_def)
  have f0: "attempt envFlaky u 0 = Threw (Some ''timeout'')" for u
    by (simp add: attempt_def envFlaky_def envChain_def envServing_def)
  have f1: "attempt envFlaky u (Suc 0) = Returned (''0xAB'', ''https://example.com/7.json'')" for u
    by (simp add: attempt_def envFlaky_def envChain_def envServing_def)
  have n: "\<not> nonexistent (Some ''timeout'')" by code_simp
  have l: "length (RPC_LIST cfgNoPrimary) = 4" by (simp add: RPC_LIST_def)
  have p: "provider ?s = ''https://rpc.apechain.com/http''"
    by (simp add: initState_cfgNoPrimary)
  have down: "readChain cfgNoPrimary envDown 0 ?s []
     = (ChainUnavailable, ?s,
        [''https://rpc.apechain.com/http'', ''https://rpc.apechain.com/http'',
         ''https://rpc.apechain.com/http'', ''https://rpc.apechain.com/http''])"
    by (simp add: readChain.simps [of _ _ _ ?s] l a n rebind_cfgNoPrimary p)
  have flaky: "readChain cfgNoPrimary envFlaky 0 ?s []
     = (Success ''0xAB'' ''https://example.com/7.json'', ?s,
        [''https://rpc.apechain.com/http'', ''https://rpc.apechain.com/http''])"
    by (simp add: readChain.simps [of _ _ _ ?s] l f0 f1 n rebind_cfgNoPrimary p)
  from down flaky show ?thesis by (intro conjI)
qed

section \<open>Orchestrator: the batches\<close>







lemma batchesFrom_unfold:
  "i \<le> n \<Longrightarrow> batchesFrom i n = batch i n # batchesFrom (i + BATCH_SIZE) n"
  "\<not> i \<le> n \<Longrightarrow> batchesFrom i n = []"
  by (simp_all add: batchesFrom.simps [of i n])



section \<open>Orchestrator: the tasks of a batch\<close>

text \<open>
  What one resumption does to the rows handed to \<open>upsert\<close>: it appends the task's row
  when the task goes from not having written to having written, and nothing otherwise.
\<close>

lemma resume_upserts:
  assumes "resume cfg e tid p st = (p', st')"
  shows "\<exists>ws. upserts st' = upserts st @ ws
           \<and> mset (map tokenid ws) + (if wrote p then {#toString tid#} else {#})
               = (if wrote p' then {#toString tid#} else {#})"
  using assms
  by (cases p)
     (auto simp: resume_def resume_try_def handler_def loopHead_def wrote_def Let_def
        tokenid_upsertData split: call.splits prod.splits option.splits if_splits)

text \<open>Replacing one task of a batch changes the \<open>tokenid\<close>s of those that have written
  by that task alone.\<close>

lemma mset_list_update:
  "k < length ts \<Longrightarrow> mset (ts[k := y]) + {#ts ! k#} = mset ts + {#y#}"
  by (induction ts arbitrary: k) (auto split: nat.splits)

lemma writers_update:
  assumes "k < length ts"
  shows "mset (writers (ts[k := (fst (ts ! k), p')]))
           + (if wrote (snd (ts ! k)) then {#toString (fst (ts ! k))#} else {#})
         = mset (writers ts) + (if wrote p' then {#toString (fst (ts ! k))#} else {#})"
proof -
  let ?F = "\<lambda>M. image_mset (\<lambda>t. toString (fst t)) (filter_mset (\<lambda>t. wrote (snd t)) M)"
  have w: "mset (writers xs) = ?F (mset xs)" for xs by (simp add: writers_def)
  from mset_list_update [OF assms, of "(fst (ts ! k), p')"]
  have "?F (mset (ts[k := (fst (ts ! k), p')]) + {#ts ! k#}) = ?F (mset ts + {#(fst (ts ! k), p')#})"
    by (simp only:)
  then show ?thesis by (auto simp: w split: if_splits)
qed

lemma waiting_mem: "k \<in> set (waiting ts) \<Longrightarrow> k < length ts \<and> \<not> finished (snd (ts ! k))"
  by (simp add: waiting_def)

lemma waiting_pick: "waiting ts \<noteq> [] \<Longrightarrow> waiting ts ! (j mod length (waiting ts)) \<in> set (waiting ts)"
  by simp

lemma waiting_Nil: "waiting ts = [] \<longleftrightarrow> (\<forall>t\<in>set ts. finished (snd t))"
  by (auto simp: waiting_def filter_empty_conv all_set_conv_all_nth)

lemma start_not_wrote: "\<not> wrote (start cfg st)"
  by (simp add: start_def loopHead_def wrote_def)

lemma writers_start: "writers (map (\<lambda>tid. (tid, start cfg st)) ids) = []"
  by (simp add: writers_def start_not_wrote)

text \<open>
  A batch resumed to its end: the ids stay as they are, every task has ended, and the
  rows handed to \<open>upsert\<close> meanwhile are, in some order, one for each task that has come
  to its \<open>upsert\<close> meanwhile.
\<close>

lemma runTasks_result:
  assumes "runTasks cfg envs pick n ts st = (ts', st')"
  shows "map fst ts' = map fst ts \<and> (\<forall>t\<in>set ts'. finished (snd t))
       \<and> (\<exists>ws. upserts st' = upserts st @ ws
              \<and> mset (map tokenid ws) + mset (writers ts) = mset (writers ts'))"
  using assms
proof (induction cfg envs pick n ts st rule: runTasks.induct)
  case (1 cfg envs pick n ts st)
  show ?case
  proof (cases "waiting ts = []")
    case True
    with "1.prems" have "ts' = ts" "st' = st" by (simp_all add: runTasks.simps [of cfg envs pick n ts st])
    with True show ?thesis by (simp add: waiting_Nil)
  next
    case False
    define k where "k = waiting ts ! (pick n mod length (waiting ts))"
    define tid where "tid = fst (ts ! k)"
    define r where "r = resume cfg (envs tid) tid (snd (ts ! k)) st"
    from False have "k \<in> set (waiting ts)" unfolding k_def by (rule waiting_pick)
    then have kl: "k < length ts" by (simp add: waiting_mem)
    from False "1.prems"
    have run: "runTasks cfg envs pick (n + 1) (ts[k := (tid, fst r)]) (snd r) = (ts', st')"
      by (simp add: runTasks.simps [of cfg envs pick n ts st] Let_def k_def tid_def r_def)
    from "1.IH" [OF False k_def tid_def r_def run]
    obtain ws2 where ih: "map fst ts' = map fst (ts[k := (tid, fst r)])"
      "\<forall>t\<in>set ts'. finished (snd t)"
      "upserts st' = upserts (snd r) @ ws2"
      "mset (map tokenid ws2) + mset (writers (ts[k := (tid, fst r)])) = mset (writers ts')"
      by blast
    have "resume cfg (envs tid) tid (snd (ts ! k)) st = (fst r, snd r)" by (simp add: r_def)
    from resume_upserts [OF this]
    obtain ws1 where s: "upserts (snd r) = upserts st @ ws1"
      "mset (map tokenid ws1) + (if wrote (snd (ts ! k)) then {#toString tid#} else {#})
         = (if wrote (fst r) then {#toString tid#} else {#})"
      by blast
    from writers_update [OF kl, of "fst r"]
    have u: "mset (writers (ts[k := (tid, fst r)]))
           + (if wrote (snd (ts ! k)) then {#toString tid#} else {#})
         = mset (writers ts) + (if wrote (fst r) then {#toString tid#} else {#})"
      by (simp only: tid_def)
    have "(map fst ts)[k := map fst ts ! k] = map fst ts" by (rule list_update_id)
    with kl have ids: "map fst (ts[k := (tid, fst r)]) = map fst ts"
      by (simp add: tid_def map_update)
    let ?P = "if wrote (snd (ts ! k)) then {#toString tid#} else {#}"
    let ?Q = "if wrote (fst r) then {#toString tid#} else {#}"
    have "mset (map tokenid (ws1 @ ws2)) + mset (writers ts) + ?P
        = mset (map tokenid ws2) + (mset (writers ts) + ?Q)"
      using s(2) by (simp add: ac_simps)
    also have "\<dots> = mset (map tokenid ws2) + (mset (writers (ts[k := (tid, fst r)])) + ?P)"
      by (simp only: u)
    also have "\<dots> = mset (writers ts') + ?P"
      using ih(4) by (simp add: ac_simps)
    finally have "mset (map tokenid (ws1 @ ws2)) + mset (writers ts) = mset (writers ts')"
      by simp
    moreover from ih(3) s(1) have "upserts st' = upserts st @ (ws1 @ ws2)" by simp
    ultimately show ?thesis using ih(1,2) ids by metis
  qed
qed

text \<open>
  A task for which the chain answers never enters the \<open>catch\<close> of the retry loop, whoever
  rebinds the contract meanwhile: it ends after its \<open>upsert\<close>.
\<close>

lemma start_waits: "\<not> finished (start cfg st)"
  by (simp add: start_def loopHead_def finished_def length_RPC_LIST)

lemma resume_answering:
  assumes "chainAnswers e" and "finished p \<longrightarrow> p = writeEnd e"
  shows "finished (fst (resume cfg e tid p st)) \<longrightarrow> fst (resume cfg e tid p st) = writeEnd e"
proof (cases p)
  case (OwnerOf i u)
  from assms(1) obtain owner where "ownerOf e u i = Returned owner"
    unfolding chainAnswers_def by blast
  with OwnerOf show ?thesis by (simp add: resume_def resume_try_def finished_def)
next
  case (TokenURI i u owner)
  from assms(1) obtain uri where "tokenURI e u i = Returned uri"
    unfolding chainAnswers_def by blast
  with TokenURI show ?thesis by (simp add: resume_def resume_try_def finished_def)
next
  case (Fetching owner uri)
  then show ?thesis by (simp add: resume_def resume_try_def finished_def split: prod.splits)
next
  case (Selecting owner nm img)
  then show ?thesis by (simp add: resume_def resume_try_def finished_def Let_def)
next
  case (Upserting row)
  then show ?thesis by (simp add: resume_def resume_try_def writeEnd_def split: option.splits)
next
  case (Finished out)
  then have r: "fst (resume cfg e tid p st) = p" by (simp add: resume_def resume_try_def)
  show ?thesis unfolding r by (rule assms(2))
qed

lemma runTasks_answering:
  assumes "runTasks cfg envs pick n ts st = (ts', st')"
    and "\<forall>t\<in>set ts. chainAnswers (envs (fst t)) \<longrightarrow> finished (snd t) \<longrightarrow> snd t = writeEnd (envs (fst t))"
  shows "\<forall>t\<in>set ts'. chainAnswers (envs (fst t)) \<longrightarrow> snd t = writeEnd (envs (fst t))"
  using assms
proof (induction cfg envs pick n ts st rule: runTasks.induct)
  case (1 cfg envs pick n ts st)
  show ?case
  proof (cases "waiting ts = []")
    case True
    with "1.prems"(1) have "ts' = ts" by (simp add: runTasks.simps [of cfg envs pick n ts st])
    with True "1.prems"(2) show ?thesis by (simp add: waiting_Nil)
  next
    case False
    define k where "k = waiting ts ! (pick n mod length (waiting ts))"
    define tid where "tid = fst (ts ! k)"
    define r where "r = resume cfg (envs tid) tid (snd (ts ! k)) st"
    from False have "k \<in> set (waiting ts)" unfolding k_def by (rule waiting_pick)
    then have kl: "k < length ts" by (simp add: waiting_mem)
    then have mem: "ts ! k \<in> set ts" by simp
    from False "1.prems"(1)
    have run: "runTasks cfg envs pick (n + 1) (ts[k := (tid, fst r)]) (snd r) = (ts', st')"
      by (simp add: runTasks.simps [of cfg envs pick n ts st] Let_def k_def tid_def r_def)
    have new: "chainAnswers (envs tid) \<longrightarrow> finished (fst r) \<longrightarrow> fst r = writeEnd (envs tid)"
    proof
      assume a: "chainAnswers (envs tid)"
      with "1.prems"(2) mem have "finished (snd (ts ! k)) \<longrightarrow> snd (ts ! k) = writeEnd (envs tid)"
        by (simp add: tid_def)
      from resume_answering [OF a this]
      show "finished (fst r) \<longrightarrow> fst r = writeEnd (envs tid)" by (simp add: r_def)
    qed
    have "\<forall>t\<in>set (ts[k := (tid, fst r)]).
        chainAnswers (envs (fst t)) \<longrightarrow> finished (snd t) \<longrightarrow> snd t = writeEnd (envs (fst t))"
    proof
      fix t assume "t \<in> set (ts[k := (tid, fst r)])"
      then have "t = (tid, fst r) \<or> t \<in> set ts"
        using set_update_subset_insert [of ts k "(tid, fst r)"] by auto
      with new "1.prems"(2)
      show "chainAnswers (envs (fst t)) \<longrightarrow> finished (snd t) \<longrightarrow> snd t = writeEnd (envs (fst t))"
        by auto
    qed
    from "1.IH" [OF False k_def tid_def r_def run this] show ?thesis .
  qed
qed

text \<open>The same for a batch from its start, and for the batches of a run.\<close>

lemma runBatch_result:
  assumes "runBatch cfg envs pick ids st = (outs, st')"
  shows "map fst outs = ids
       \<and> (\<forall>t\<in>set outs. finished (snd t)
             \<and> (chainAnswers (envs (fst t)) \<longrightarrow> snd t = writeEnd (envs (fst t))))
       \<and> (\<exists>ws. upserts st' = upserts st @ ws \<and> mset (map tokenid ws) = mset (writers outs))"
proof -
  let ?ts = "map (\<lambda>tid. (tid, start cfg st)) ids"
  from assms have run: "runTasks cfg envs pick 0 ?ts st = (outs, st')" by (simp add: runBatch_def)
  have "map fst ?ts = ids" by (simp add: comp_def)
  with runTasks_result [OF run] writers_start [of cfg st ids]
  have a: "map fst outs = ids" "\<forall>t\<in>set outs. finished (snd t)"
    "\<exists>ws. upserts st' = upserts st @ ws \<and> mset (map tokenid ws) = mset (writers outs)"
    by simp_all
  have "\<forall>t\<in>set ?ts. chainAnswers (envs (fst t)) \<longrightarrow> finished (snd t) \<longrightarrow> snd t = writeEnd (envs (fst t))"
    by (simp add: start_waits)
  from runTasks_answering [OF run this] a show ?thesis by blast
qed

lemma syncLoop_result:
  assumes "syncLoop cfg envs sched i n st = (bs, st')"
  shows "map (map fst) bs = batchesFrom i n
       \<and> (\<forall>b\<in>set bs. \<forall>t\<in>set b. finished (snd t)
             \<and> (chainAnswers (envs (fst t)) \<longrightarrow> snd t = writeEnd (envs (fst t))))
       \<and> (\<exists>wss. upserts st' = upserts st @ concat wss
              \<and> list_all2 (\<lambda>ws b. mset (map tokenid ws) = mset (writers b)) wss bs)"
  using assms
proof (induction cfg envs sched i n st arbitrary: bs st' rule: syncLoop.induct)
  case (1 cfg envs sched i n st)
  show ?case
  proof (cases "i \<le> n")
    case False
    with "1.prems" have "bs = []" "st' = st"
      by (simp_all add: syncLoop.simps [of cfg envs sched i n st])
    with False show ?thesis by (simp add: batchesFrom_unfold [of i n])
  next
    case True
    obtain outs st1 where b: "runBatch cfg envs (sched i) (batch i n) st = (outs, st1)"
      by (cases "runBatch cfg envs (sched i) (batch i n) st") auto
    obtain rest st2 where l: "syncLoop cfg envs sched (i + BATCH_SIZE) n st1 = (rest, st2)"
      by (cases "syncLoop cfg envs sched (i + BATCH_SIZE) n st1") auto
    from True b l "1.prems" have eq: "bs = outs # rest" "st' = st2"
      by (simp_all add: syncLoop.simps [of cfg envs sched i n st])
    from runBatch_result [OF b] obtain ws
      where r: "map fst outs = batch i n"
        "\<forall>t\<in>set outs. finished (snd t)
             \<and> (chainAnswers (envs (fst t)) \<longrightarrow> snd t = writeEnd (envs (fst t)))"
        "upserts st1 = upserts st @ ws" "mset (map tokenid ws) = mset (writers outs)"
      by blast
    from "1.IH" [OF True b [symmetric] l] obtain wss
      where ih: "map (map fst) rest = batchesFrom (i + BATCH_SIZE) n"
        "\<forall>b\<in>set rest. \<forall>t\<in>set b. finished (snd t)
             \<and> (chainAnswers (envs (fst t)) \<longrightarrow> snd t = writeEnd (envs (fst t)))"
        "upserts st2 = upserts st1 @ concat wss"
        "list_all2 (\<lambda>ws b. mset (map tokenid ws) = mset (writers b)) wss rest"
      by blast
    have "upserts st' = upserts st @ concat (ws # wss)" using r(3) ih(3) eq by simp
    moreover have "list_all2 (\<lambda>ws b. mset (map tokenid ws) = mset (writers b)) (ws # wss) bs"
      using r(4) ih(4) eq by simp
    moreover have "map (map fst) bs = batchesFrom i n"
      using True r(1) ih(1) eq by (simp add: batchesFrom_unfold [of i n])
    moreover have "\<forall>b\<in>set bs. \<forall>t\<in>set b. finished (snd t)
             \<and> (chainAnswers (envs (fst t)) \<longrightarrow> snd t = writeEnd (envs (fst t)))"
      using r(2) ih(2) eq by simp
    ultimately show ?thesis by blast
  qed
qed

text \<open>
  A batch of one task. Its resumptions do not depend on the order of arrival, and they
  follow the retry loop of \<open>readChain\<close>: nobody else rebinds the contract, so both calls of
  an attempt go to the same endpoint.
\<close>

lemma resume_remaining:
  "\<not> finished p \<Longrightarrow> remaining cfg (fst (resume cfg e tid p st)) < remaining cfg p"
  by (cases p)
     (auto simp: resume_def resume_try_def handler_def loopHead_def remaining_def finished_def
        Let_def split: call.splits prod.splits option.splits if_splits)

lemma waiting_single: "waiting [(tid, p)] = (if finished p then [] else [0])"
  by (simp add: waiting_def)

lemma runTasks_single_done:
  "finished p \<Longrightarrow> runTasks cfg envs pick n [(tid, p)] st = ([(tid, p)], st)"
  by (simp add: runTasks.simps [of cfg envs pick n "[(tid, p)]" st] waiting_single)

lemma runTasks_single_step:
  "\<not> finished p \<Longrightarrow>
     runTasks cfg envs pick n [(tid, p)] st =
       runTasks cfg envs pick (n + 1) [(tid, fst (resume cfg (envs tid) tid p st))]
         (snd (resume cfg (envs tid) tid p st))"
  by (simp add: runTasks.simps [of cfg envs pick n "[(tid, p)]" st] waiting_single Let_def)

lemma runTasks_single:
  "envs tid = e \<Longrightarrow> runTasks cfg envs pick n [(tid, p)] st = alone cfg e tid p st"
proof (induction "remaining cfg p" arbitrary: p st n pick envs rule: less_induct)
  case less
  show ?case
  proof (cases "finished p")
    case True
    then show ?thesis by (simp add: alone_def runTasks_single_done)
  next
    case False
    let ?r = "resume cfg e tid p st"
    from False have d: "remaining cfg (fst ?r) < remaining cfg p" by (rule resume_remaining)
    from False less.prems
    have "runTasks cfg envs pick n [(tid, p)] st = runTasks cfg envs pick (n + 1) [(tid, fst ?r)] (snd ?r)"
      by (simp add: runTasks_single_step)
    also have "\<dots> = alone cfg e tid (fst ?r) (snd ?r)"
      using less.hyps [OF d, where envs = envs and pick = pick and n = "n + 1" and st = "snd ?r"]
        less.prems by simp
    also have "\<dots> = runTasks cfg (\<lambda>t. e) (\<lambda>n. 0) (0 + 1) [(tid, fst ?r)] (snd ?r)"
      using less.hyps [OF d, where envs = "\<lambda>t. e" and pick = "\<lambda>n. 0" and n = "0 + 1"
          and st = "snd ?r"]
      by simp
    also have "\<dots> = alone cfg e tid p st"
      unfolding alone_def
      using runTasks_single_step [OF False, where cfg = cfg and envs = "\<lambda>t. e" and pick = "\<lambda>n. 0"
          and n = 0 and tid = tid and st = st]
      by simp
    finally show ?thesis .
  qed
qed

lemma alone_done: "finished p \<Longrightarrow> alone cfg e tid p st = ([(tid, p)], st)"
  by (simp add: alone_def runTasks_single_done)

lemma alone_step:
  assumes "\<not> finished p"
  shows "alone cfg e tid p st
           = alone cfg e tid (fst (resume cfg e tid p st)) (snd (resume cfg e tid p st))"
proof -
  let ?r = "resume cfg e tid p st"
  have "alone cfg e tid p st = runTasks cfg (\<lambda>t. e) (\<lambda>n. 0) 0 [(tid, p)] st"
    by (simp only: alone_def)
  also have "\<dots> = runTasks cfg (\<lambda>t. e) (\<lambda>n. 0) (0 + 1) [(tid, fst ?r)] (snd ?r)"
    using runTasks_single_step [OF assms, where cfg = cfg and envs = "\<lambda>t. e" and pick = "\<lambda>n. 0"
        and n = 0 and tid = tid and st = st]
    by simp
  also have "\<dots> = alone cfg e tid (fst ?r) (snd ?r)"
    by (rule runTasks_single) simp
  finally show ?thesis .
qed

text \<open>The end of a task from the fetch of its metadata on.\<close>

lemma alone_Upserting:
  "alone cfg e tid (Upserting row) st =
     (case upsert_error e of
        Some msg \<Rightarrow> ([(tid, Finished (DbError msg))], st)
      | None \<Rightarrow> ([(tid, Finished Synced)], st\<lparr>store := (store st)(toString tid \<mapsto> row)\<rparr>))"
  by (simp add: alone_step [of "Upserting row"] finished_def resume_def resume_try_def alone_done
        split: option.splits)

lemma alone_Selecting:
  "alone cfg e tid (Selecting owner nm img) st =
     alone cfg e tid (Upserting (upsertData cfg tid owner nm img (lookupData e st tid) (now e)))
       (st\<lparr>upserts := upserts st @ [upsertData cfg tid owner nm img (lookupData e st tid) (now e)]\<rparr>)"
  by (simp add: alone_step [of "Selecting owner nm img"] finished_def resume_def resume_try_def Let_def)

lemma alone_Fetching:
  "alone cfg e tid (Fetching owner uri) st =
     alone cfg e tid
       (Selecting owner (fst (metadataFields tid (fst (fetchMetadataWithRetry (fetch e) uri))))
          (snd (metadataFields tid (fst (fetchMetadataWithRetry (fetch e) uri))))) st"
  by (simp add: alone_step [of "Fetching owner uri"] finished_def resume_def resume_try_def
        split: prod.splits)

lemma alone_chain:
  "i < length (RPC_LIST cfg) \<Longrightarrow>
     alone cfg e tid (OwnerOf i (provider st)) st =
       (case readChain cfg e i st asked of
          (Success owner uri, st1, a) \<Rightarrow> alone cfg e tid (Fetching owner uri) st1
        | (TokenNotFound, st1, a) \<Rightarrow> ([(tid, Finished NotFound)], st1)
        | (ChainUnavailable, st1, a) \<Rightarrow> ([(tid, Finished (Failed ''RPC failed''))], st1))"
proof (induction cfg e i st asked rule: readChain.induct)
  case (1 cfg e i st asked)
  note lt = \<open>i < length (RPC_LIST cfg)\<close>
  have after: "alone cfg e tid (fst (resume cfg e tid p st)) (snd (resume cfg e tid p st)) =
       (case readChain cfg e i st asked of
          (Success owner uri, st1, a) \<Rightarrow> alone cfg e tid (Fetching owner uri) st1
        | (TokenNotFound, st1, a) \<Rightarrow> ([(tid, Finished NotFound)], st1)
        | (ChainUnavailable, st1, a) \<Rightarrow> ([(tid, Finished (Failed ''RPC failed''))], st1))"
    if th: "resume_try cfg e tid p st = handler cfg m i st" "attempt e (provider st) i = Threw m"
    for p m
  proof (cases "nonexistent m")
    case True
    with th lt show ?thesis
      by (simp add: resume_def handler_def readChain.simps [of cfg e i st asked] alone_done
            finished_def)
  next
    case False
    show ?thesis
    proof (cases "i + 1 < length (RPC_LIST cfg)")
      case True
      from "1.IH" [OF lt th(2) False True] th False True lt show ?thesis
        by (simp add: resume_def handler_def loopHead_def Let_def
              readChain.simps [of cfg e i st asked])
    next
      case nl: False
      then have "readChain cfg e (i + 1) (rebind cfg st) (asked @ [provider st])
          = (ChainUnavailable, rebind cfg st, asked @ [provider st])"
        by (simp add: readChain.simps [of cfg e "Suc i"])
      with th False nl lt show ?thesis
        by (simp add: resume_def handler_def loopHead_def Let_def alone_done finished_def
              readChain.simps [of cfg e i st asked])
    qed
  qed
  show ?case
  proof (cases "ownerOf e (provider st) i")
    case (Threw m)
    then have "resume_try cfg e tid (OwnerOf i (provider st)) st = handler cfg m i st"
      "attempt e (provider st) i = Threw m"
      by (simp_all add: resume_try_def attempt_def)
    from after [OF this] show ?thesis
      by (simp add: alone_step [of "OwnerOf i (provider st)"] finished_def)
  next
    case (Returned owner)
    then have s1: "alone cfg e tid (OwnerOf i (provider st)) st
        = alone cfg e tid (TokenURI i (provider st) owner) st"
      by (simp add: alone_step [of "OwnerOf i (provider st)"] finished_def resume_def resume_try_def)
    show ?thesis
    proof (cases "tokenURI e (provider st) i")
      case (Threw m)
      with Returned
      have "resume_try cfg e tid (TokenURI i (provider st) owner) st = handler cfg m i st"
        "attempt e (provider st) i = Threw m"
        by (simp_all add: resume_try_def attempt_def)
      from after [OF this] show ?thesis
        by (simp add: s1 alone_step [of "TokenURI i (provider st) owner"] finished_def)
    next
      case uri: (Returned uri)
      with Returned have "attempt e (provider st) i = Returned (owner, uri)"
        by (simp add: attempt_def)
      with lt uri show ?thesis
        by (simp add: s1 alone_step [of "TokenURI i (provider st) owner"] finished_def resume_def
              resume_try_def readChain.simps [of cfg e i st asked])
    qed
  qed
qed

text \<open>A batch of one task is \<open>processNFT\<close>.\<close>

lemma runBatch_single:
  assumes "processNFT cfg (envs tid) tid st = Inr (out, st')"
  shows "runBatch cfg envs pick [tid] st = ([(tid, Finished out)], st')"
proof -
  let ?e = "envs tid"
  have "runBatch cfg envs pick [tid] st = alone cfg ?e tid (OwnerOf 0 (provider st)) st"
    by (simp add: runBatch_def start_def loopHead_def length_RPC_LIST runTasks_single)
  also have "\<dots> = (case readChain cfg ?e 0 st [] of
          (Success owner uri, st1, a) \<Rightarrow> alone cfg ?e tid (Fetching owner uri) st1
        | (TokenNotFound, st1, a) \<Rightarrow> ([(tid, Finished NotFound)], st1)
        | (ChainUnavailable, st1, a) \<Rightarrow> ([(tid, Finished (Failed ''RPC failed''))], st1))"
    by (rule alone_chain) (simp add: length_RPC_LIST)
  finally have r: "runBatch cfg envs pick [tid] st = (case readChain cfg ?e 0 st [] of
          (Success owner uri, st1, a) \<Rightarrow> alone cfg ?e tid (Fetching owner uri) st1
        | (TokenNotFound, st1, a) \<Rightarrow> ([(tid, Finished NotFound)], st1)
        | (ChainUnavailable, st1, a) \<Rightarrow> ([(tid, Finished (Failed ''RPC failed''))], st1))" .
  obtain rr st1 a where rc: "readChain cfg ?e 0 st [] = (rr, st1, a)"
    by (cases "readChain cfg ?e 0 st []") auto
  show ?thesis
  proof (cases rr)
    case (Success owner uri)
    with rc assms r show ?thesis
      by (auto simp: processNFT_def processNFT_try_def alone_Fetching alone_Selecting
            alone_Upserting Let_def split: prod.splits option.splits)
  next
    case TokenNotFound
    with rc assms r show ?thesis by (auto simp: processNFT_def processNFT_try_def)
  next
    case ChainUnavailable
    with rc assms r show ?thesis by (auto simp: processNFT_def processNFT_try_def)
  qed
qed

section \<open>Orchestrator: the run\<close>




lemma main_result:
  assumes "totalSupply w (provider st) = Returned n"
  shows "\<exists>bs st'. main cfg w st = (Completed, bs, st') \<and> map (map fst) bs = batchesFrom 1 n
           \<and> (\<forall>b\<in>set bs. \<forall>t\<in>set b. finished (snd t)
                 \<and> (chainAnswers (task w (fst t)) \<longrightarrow> snd t = writeEnd (task w (fst t))))
           \<and> (\<exists>wss. upserts st' = upserts st @ concat wss
                  \<and> list_all2 (\<lambda>ws b. mset (map tokenid ws) = mset (writers b)) wss bs)"
proof -
  obtain bs st' where l: "syncLoop cfg (task w) (schedule w) 1 n st = (bs, st')"
    by (cases "syncLoop cfg (task w) (schedule w) 1 n st") auto
  with assms have "main cfg w st = (Completed, bs, st')" by (simp add: main_def)
  with syncLoop_result [OF l] show ?thesis by blast
qed






section \<open>Failures of a task\<close>

lemma processNFT_unread:
  assumes "readChain cfg e 0 st [] = (r, st1, asked)" and "r = TokenNotFound \<or> r = ChainUnavailable"
  shows "processNFT cfg e tid st =
           Inr (if r = TokenNotFound then NotFound else Failed ''RPC failed'', st1)
         \<and> store st1 = store st \<and> upserts st1 = upserts st"
  using assms readChain_keeps [OF assms(1)]
  by (auto simp: processNFT_def processNFT_try_def)

lemma processNFT_not_Synced:
  assumes "processNFT cfg e tid st = Inr (out, st')" and "out \<noteq> Synced"
  shows "store st' = store st"
proof -
  obtain r st1 asked where rc: "readChain cfg e 0 st [] = (r, st1, asked)"
    by (cases "readChain cfg e 0 st []") auto
  from readChain_keeps [OF rc] have k: "store st1 = store st" by simp
  from assms rc k show ?thesis
    by (auto simp: processNFT_def processNFT_try_def Let_def
          split: read_result.splits prod.splits option.splits)
qed

lemma processNFT_no_upsert:
  assumes "processNFT cfg e tid st = Inr (out, st')" and "out = NotFound \<or> out = Failed msg"
  shows "upserts st' = upserts st"
proof -
  obtain r st1 asked where rc: "readChain cfg e 0 st [] = (r, st1, asked)"
    by (cases "readChain cfg e 0 st []") auto
  from readChain_keeps [OF rc] have k: "upserts st1 = upserts st" by simp
  from assms rc k show ?thesis
    by (auto simp: processNFT_def processNFT_try_def Let_def
          split: read_result.splits prod.splits option.splits)
qed

text \<open>Two chain reads evaluated: every call timing out, and the token reported as
  nonexistent.\<close>

lemma attempt_envDown: "attempt envDown u i = Threw (Some ''timeout'')"
  by (simp add: attempt_def envDown_def envChain_def envServing_def)

lemma not_nonexistent_timeout: "\<not> nonexistent (Some ''timeout'')"
  by code_simp

lemma readChain_envDown:
  "readChain cfg envDown 0 st [] =
     (ChainUnavailable, rebind cfg (rebind cfg (rebind cfg (rebind cfg st))),
      [provider st, provider (rebind cfg st), provider (rebind cfg (rebind cfg st)),
       provider (rebind cfg (rebind cfg (rebind cfg st)))])"
  by (simp add: readChain.simps [of cfg envDown] length_RPC_LIST attempt_envDown
        not_nonexistent_timeout)

lemma readChain_envNonexistent:
  "readChain cfg envNonexistent 0 st [] = (TokenNotFound, st, [provider st])"
proof -
  have n: "nonexistent (Some ''execution reverted: ERC721: owner query for nonexistent token'')"
    by code_simp
  have a: "attempt envNonexistent u i
      = Threw (Some ''execution reverted: ERC721: owner query for nonexistent token'')" for u i
    by (simp add: attempt_def envNonexistent_def envChain_def envServing_def)
  show ?thesis
    by (simp add: readChain.simps [of cfg envNonexistent] length_RPC_LIST a n)
qed

text \<open>
  Failures of the chain read, and of the run. A task never rejects. When the chain read
  ends in \<open>TokenNotFound\<close> or \<open>ChainUnavailable\<close>, the task ends as \<open>NotFound\<close> or \<open>Failed\<close>
  with the table and the list of rows handed to \<open>upsert\<close> as they were; a task that ends
  in anything but \<open>Synced\<close> leaves the table as it was, and one that ends as \<open>NotFound\<close>
  or \<open>Failed\<close> has handed no row to \<open>upsert\<close>. Once \<open>totalSupply\<close> has returned, the run
  completes with every task of every batch ended, in whatever order the tasks are
  resumed. When \<open>totalSupply\<close> throws, the run ends as \<open>Fatal\<close> with no batch processed
  and the state untouched, and that is the only way for a run not to complete. (A failed
  metadata fetch is no failure of the task: the row is still written, as C4 says.)
\<close>

lemma chain_failures_are_contained:
  "(\<exists>out st'. processNFT cfg e tid st = Inr (out, st'))
   \<and> (fst (readChain cfg e 0 st []) = TokenNotFound \<longrightarrow>
        (\<exists>st'. processNFT cfg e tid st = Inr (NotFound, st')
              \<and> store st' = store st \<and> upserts st' = upserts st))
   \<and> (fst (readChain cfg e 0 st []) = ChainUnavailable \<longrightarrow>
        (\<exists>st'. processNFT cfg e tid st = Inr (Failed ''RPC failed'', st')
              \<and> store st' = store st \<and> upserts st' = upserts st))
   \<and> (processNFT cfg e tid st = Inr (out, st1) \<and> out \<noteq> Synced \<longrightarrow> store st1 = store st)
   \<and> (processNFT cfg e tid st = Inr (out, st1) \<and> (out = NotFound \<or> out = Failed msg) \<longrightarrow>
        upserts st1 = upserts st)
   \<and> (totalSupply w (provider st) = Returned n \<longrightarrow>
        fst (main cfg w st) = Completed
        \<and> map (map fst) (fst (snd (main cfg w st))) = batchesFrom 1 n
        \<and> (\<forall>b\<in>set (fst (snd (main cfg w st))). \<forall>t\<in>set b. finished (snd t)))
   \<and> (totalSupply w (provider st) = Threw m \<longrightarrow> main cfg w st = (Fatal m, [], st))
   \<and> (fst (main cfg w st) \<noteq> Completed \<longrightarrow> (\<exists>m'. totalSupply w (provider st) = Threw m'))"
proof -
  obtain r st1' asked where rc: "readChain cfg e 0 st [] = (r, st1', asked)"
    by (cases "readChain cfg e 0 st []") auto
  have a: "\<exists>out st'. processNFT cfg e tid st = Inr (out, st')" by (rule processNFT_Inr)
  have b: "fst (readChain cfg e 0 st []) = TokenNotFound \<longrightarrow>
        (\<exists>st'. processNFT cfg e tid st = Inr (NotFound, st')
              \<and> store st' = store st \<and> upserts st' = upserts st)"
    using processNFT_unread [OF rc, of tid] rc by auto
  have c: "fst (readChain cfg e 0 st []) = ChainUnavailable \<longrightarrow>
        (\<exists>st'. processNFT cfg e tid st = Inr (Failed ''RPC failed'', st')
              \<and> store st' = store st \<and> upserts st' = upserts st)"
    using processNFT_unread [OF rc, of tid] rc by auto
  have d: "processNFT cfg e tid st = Inr (out, st1) \<and> out \<noteq> Synced \<longrightarrow> store st1 = store st"
    using processNFT_not_Synced by blast
  have f: "processNFT cfg e tid st = Inr (out, st1) \<and> (out = NotFound \<or> out = Failed msg) \<longrightarrow>
        upserts st1 = upserts st"
    using processNFT_no_upsert by blast
  have h: "totalSupply w (provider st) = Returned n \<longrightarrow>
        fst (main cfg w st) = Completed
        \<and> map (map fst) (fst (snd (main cfg w st))) = batchesFrom 1 n
        \<and> (\<forall>b\<in>set (fst (snd (main cfg w st))). \<forall>t\<in>set b. finished (snd t))"
  proof
    assume "totalSupply w (provider st) = Returned n"
    from main_result [OF this, of cfg] obtain bs st'
      where "main cfg w st = (Completed, bs, st')" "map (map fst) bs = batchesFrom 1 n"
        "\<forall>b\<in>set bs. \<forall>t\<in>set b. finished (snd t)
             \<and> (chainAnswers (task w (fst t)) \<longrightarrow> snd t = writeEnd (task w (fst t)))"
      by blast
    then show "fst (main cfg w st) = Completed
        \<and> map (map fst) (fst (snd (main cfg w st))) = batchesFrom 1 n
        \<and> (\<forall>b\<in>set (fst (snd (main cfg w st))). \<forall>t\<in>set b. finished (snd t))"
      by simp
  qed
  have i: "totalSupply w (provider st) = Threw m \<longrightarrow> main cfg w st = (Fatal m, [], st)"
    by (simp add: main_def)
  have j: "fst (main cfg w st) \<noteq> Completed \<longrightarrow> (\<exists>m'. totalSupply w (provider st) = Threw m')"
  proof (cases "totalSupply w (provider st)")
    case (Returned k)
    from main_result [OF this, of cfg] show ?thesis by auto
  next
    case (Threw m')
    then show ?thesis by simp
  qed
  from a b c d f h i j show ?thesis by (intro conjI)
qed

text \<open>
  Five tokens in one batch, the tasks resumed in turn: token 2 does not exist, the chain
  is down for token 3, and the tasks of tokens 1, 4 and 5 end as \<open>Synced\<close>, their rows
  being the only ones handed to \<open>upsert\<close>. And a supply that cannot be read.
\<close>

lemma mixed_batch_runs_every_task:
  "fst (main cfgPrimary (worldMixed\<lparr>schedule := (\<lambda>i n. n)\<rparr>) (initState cfgPrimary Map.empty))
     = Completed
   \<and> fst (snd (main cfgPrimary (worldMixed\<lparr>schedule := (\<lambda>i n. n)\<rparr>) (initState cfgPrimary Map.empty)))
     = [[(1, Finished Synced), (2, Finished NotFound), (3, Finished (Failed ''RPC failed'')),
         (4, Finished Synced), (5, Finished Synced)]]
   \<and> mset (map tokenid (upserts (snd (snd
         (main cfgPrimary (worldMixed\<lparr>schedule := (\<lambda>i n. n)\<rparr>) (initState cfgPrimary Map.empty))))))
     = {#''1'', ''4'', ''5''#}"
  by code_simp

lemma unread_supply_is_fatal:
  "main cfgPrimary worldNoSupply (initState cfgPrimary Map.empty)
     = (Fatal (Some ''could not detect network''), [], initState cfgPrimary Map.empty)"
  by (simp add: main_def worldNoSupply_def)

text \<open>
  The tasks of a batch share the endpoint binding. Token 2 is served by the primary
  endpoint, and its task ends as \<open>Synced\<close> when it is resumed before the task of token 1,
  for which every call times out. When the replies arrive in another order, the task of
  token 1 rebinds the contract between the calls of the task of token 2, whose four
  attempts are then used up on endpoints that do not serve it.
\<close>

lemma tasks_share_the_binding:
  "fst (snd (main cfgPrimary (worldRace (\<lambda>n. 1)) (initState cfgPrimary Map.empty)))
     = [[(1, Finished (Failed ''RPC failed'')), (2, Finished Synced)]]
   \<and> fst (snd (main cfgPrimary (worldRace (\<lambda>n. if n = 0 \<or> n = 7 then 0 else 1))
                 (initState cfgPrimary Map.empty)))
     = [[(1, Finished (Failed ''RPC failed'')), (2, Finished (Failed ''RPC failed''))]]
   \<and> outcome cfgPrimary envPrimaryOnly 2 (initState cfgPrimary Map.empty) = Some Synced"
  by code_simp

text \<open>
  Claim C6 fails on the code for a failure of the lookup of the prior row. The table's
  row for token 7 has the owner the chain reports and a listing, and the lookup's reply
  carries an error and no data. Nothing catches that failure: the script keeps only
  \<open>data\<close> of the reply, the task ends as \<open>Synced\<close>, and it has handed a row for token 7
  to \<open>upsert\<close>, with the three listing fields null.
\<close>

theorem lookup_failure_is_not_caught:
  "lookup_fails envLookupFails = True
   \<and> store (initState cfgPrimary (tableWith (listedRow (Some ''0xab'')))) (toString 7)
       = Some (listedRow (Some ''0xab''))
   \<and> outcome cfgPrimary envLookupFails 7 (initState cfgPrimary (tableWith (listedRow (Some ''0xab''))))
       = Some Synced
   \<and> map_option tokenid
        (writtenRow cfgPrimary envLookupFails 7
           (initState cfgPrimary (tableWith (listedRow (Some ''0xab'')))))
       = Some ''7''
   \<and> map_option listingFields
        (writtenRow cfgPrimary envLookupFails 7
           (initState cfgPrimary (tableWith (listedRow (Some ''0xab'')))))
       = Some (JNull, JNull, JNull)"
  by code_simp

section \<open>Chain reader\<close>

lemma readChain_step:
  "i < length (RPC_LIST cfg) \<Longrightarrow> transient (attempt e (provider st) i) \<Longrightarrow>
     readChain cfg e i st asked = readChain cfg e (Suc i) (rebind cfg st) (asked @ [provider st])"
  by (cases "attempt e (provider st) i") (simp_all add: readChain.simps [of cfg e i st] transient_def)

lemma readChain_stop:
  "i < length (RPC_LIST cfg) \<Longrightarrow> attempt e (provider st) i = Threw m \<Longrightarrow> nonexistent m \<Longrightarrow>
     readChain cfg e i st asked = (TokenNotFound, st, asked @ [provider st])"
  by (simp add: readChain.simps [of cfg e i st])

lemma readChain_success:
  "i < length (RPC_LIST cfg) \<Longrightarrow> attempt e (provider st) i = Returned (owner, uri) \<Longrightarrow>
     readChain cfg e i st asked = (Success owner uri, st, asked @ [provider st])"
  by (simp add: readChain.simps [of cfg e i st])

lemma readChain_exhausted:
  "\<not> i < length (RPC_LIST cfg) \<Longrightarrow> readChain cfg e i st asked = (ChainUnavailable, st, asked)"
  by (simp add: readChain.simps [of cfg e i st])

lemma upt_shift: "[0..<Suc d] = 0 # map Suc [0..<d]"
  by (simp add: upt_conv_Cons map_Suc_upt del: upt_Suc)

lemma readChain_transients:
  assumes "\<forall>j<d. transient (attempt e (provider ((rebind cfg ^^ j) st)) (i + j))"
    and "i + d \<le> length (RPC_LIST cfg)"
  shows "readChain cfg e i st asked =
           readChain cfg e (i + d) ((rebind cfg ^^ d) st)
             (asked @ map (\<lambda>j. provider ((rebind cfg ^^ j) st)) [0..<d])"
  using assms
proof (induction d arbitrary: i st asked)
  case 0
  then show ?case by simp
next
  case (Suc d)
  from Suc.prems have lt: "i < length (RPC_LIST cfg)" by simp
  from Suc.prems(1) have "transient (attempt e (provider ((rebind cfg ^^ 0) st)) (i + 0))"
    by blast
  then have t0: "transient (attempt e (provider st) i)" by simp
  have rest: "\<forall>j<d. transient (attempt e (provider ((rebind cfg ^^ j) (rebind cfg st))) (Suc i + j))"
  proof (intro allI impI)
    fix j assume "j < d"
    then have "Suc j < Suc d" by simp
    with Suc.prems(1) have "transient (attempt e (provider ((rebind cfg ^^ Suc j) st)) (i + Suc j))"
      by blast
    then show "transient (attempt e (provider ((rebind cfg ^^ j) (rebind cfg st))) (Suc i + j))"
      by (simp add: funpow_swap1)
  qed
  from Suc.prems(2) have le: "Suc i + d \<le> length (RPC_LIST cfg)" by simp
  have "readChain cfg e i st asked
          = readChain cfg e (Suc i) (rebind cfg st) (asked @ [provider st])"
    using lt t0 by (rule readChain_step)
  also have "\<dots> = readChain cfg e (Suc i + d) ((rebind cfg ^^ d) (rebind cfg st))
             ((asked @ [provider st]) @ map (\<lambda>j. provider ((rebind cfg ^^ j) (rebind cfg st))) [0..<d])"
    using rest le by (rule Suc.IH)
  also have "(asked @ [provider st]) @ map (\<lambda>j. provider ((rebind cfg ^^ j) (rebind cfg st))) [0..<d]
          = asked @ map (\<lambda>j. provider ((rebind cfg ^^ j) st)) [0..<Suc d]"
    by (simp only: upt_shift) (simp add: funpow_swap1 comp_def)
  finally show ?case by (simp add: funpow_swap1)
qed

lemma readChain_length:
  "length (snd (snd (readChain cfg e i st asked))) \<le> length asked + (length (RPC_LIST cfg) - i)"
proof (induction cfg e i st asked rule: readChain.induct)
  case (1 cfg e i st asked)
  show ?case
  proof (cases "i < length (RPC_LIST cfg)")
    case False
    then show ?thesis by (simp add: readChain_exhausted)
  next
    case True
    show ?thesis
    proof (cases "attempt e (provider st) i")
      case (Returned ou)
      with True show ?thesis by (cases ou) (simp add: readChain_success)
    next
      case (Threw m)
      show ?thesis
      proof (cases "nonexistent m")
        case True
        with \<open>i < length (RPC_LIST cfg)\<close> Threw show ?thesis by (simp add: readChain_stop)
      next
        case False
        with Threw have "transient (attempt e (provider st) i)" by (simp add: transient_def)
        with \<open>i < length (RPC_LIST cfg)\<close>
        have "readChain cfg e i st asked
                = readChain cfg e (i + 1) (rebind cfg st) (asked @ [provider st])"
          by (simp add: readChain_step)
        with "1.IH" [OF \<open>i < length (RPC_LIST cfg)\<close> Threw False] \<open>i < length (RPC_LIST cfg)\<close>
        show ?thesis by simp
      qed
    qed
  qed
qed

text \<open>
  The retry loop, whatever \<open>getProvider\<close> hands out. A chain read asks at most
  \<open>length RPC_LIST\<close> endpoints. If attempt \<open>k\<close> is made (every attempt before it failed
  otherwise) and fails with a nonexistent-token message, the read ends there as
  \<open>TokenNotFound\<close>, having asked \<open>k + 1\<close> endpoints and no further one. Every attempt
  that fails otherwise is followed by a rebind to the endpoint \<open>getProvider\<close> hands out
  and by the next attempt, so that the first attempt to succeed gives the result of the
  read; and if all \<open>length RPC_LIST\<close> attempts fail without a nonexistent-token message,
  the read ends as \<open>ChainUnavailable\<close>.
\<close>

theorem chain_read_attempts:
  "length (snd (snd (readChain cfg e 0 st []))) \<le> length (RPC_LIST cfg)
   \<and> (k < length (RPC_LIST cfg) \<and> (\<forall>j<k. transient (attemptAt cfg e st j))
        \<and> attemptAt cfg e st k = Threw m \<and> nonexistent m \<longrightarrow>
        readChain cfg e 0 st [] = (TokenNotFound, (rebind cfg ^^ k) st, askedUpTo cfg st (Suc k)))
   \<and> (k < length (RPC_LIST cfg) \<and> (\<forall>j<k. transient (attemptAt cfg e st j))
        \<and> attemptAt cfg e st k = Returned (owner, uri) \<longrightarrow>
        readChain cfg e 0 st [] = (Success owner uri, (rebind cfg ^^ k) st, askedUpTo cfg st (Suc k)))
   \<and> ((\<forall>j<length (RPC_LIST cfg). transient (attemptAt cfg e st j)) \<longrightarrow>
        readChain cfg e 0 st [] =
          (ChainUnavailable, (rebind cfg ^^ length (RPC_LIST cfg)) st,
           askedUpTo cfg st (length (RPC_LIST cfg))))
   \<and> provider (rebind cfg st) = fst (getProvider cfg st)"
proof -
  let ?n = "length (RPC_LIST cfg)"
  have bound: "length (snd (snd (readChain cfg e 0 st []))) \<le> ?n"
    using readChain_length [of cfg e 0 st "[]"] by simp
  have upto: "readChain cfg e 0 st [] = readChain cfg e d ((rebind cfg ^^ d) st) (askedUpTo cfg st d)"
    if "\<forall>j<d. transient (attemptAt cfg e st j)" and "d \<le> ?n" for d
    using readChain_transients [of d e cfg st 0 "[]"] that
    by (simp add: attemptAt_def askedUpTo_def)
  have asked_Suc: "askedUpTo cfg st d @ [provider ((rebind cfg ^^ d) st)] = askedUpTo cfg st (Suc d)"
    for d
    by (simp add: askedUpTo_def)
  have notfound: "k < ?n \<and> (\<forall>j<k. transient (attemptAt cfg e st j))
        \<and> attemptAt cfg e st k = Threw m \<and> nonexistent m \<longrightarrow>
        readChain cfg e 0 st [] = (TokenNotFound, (rebind cfg ^^ k) st, askedUpTo cfg st (Suc k))"
  proof (intro impI, elim conjE)
    assume k: "k < ?n" and tr: "\<forall>j<k. transient (attemptAt cfg e st j)"
      and at: "attemptAt cfg e st k = Threw m" and ne: "nonexistent m"
    from at have "attempt e (provider ((rebind cfg ^^ k) st)) k = Threw m"
      by (simp add: attemptAt_def)
    with k ne have "readChain cfg e k ((rebind cfg ^^ k) st) (askedUpTo cfg st k)
        = (TokenNotFound, (rebind cfg ^^ k) st, askedUpTo cfg st k @ [provider ((rebind cfg ^^ k) st)])"
      by (simp add: readChain_stop)
    with upto [OF tr] k show "readChain cfg e 0 st []
        = (TokenNotFound, (rebind cfg ^^ k) st, askedUpTo cfg st (Suc k))"
      by (simp add: asked_Suc)
  qed
  have success: "k < ?n \<and> (\<forall>j<k. transient (attemptAt cfg e st j))
        \<and> attemptAt cfg e st k = Returned (owner, uri) \<longrightarrow>
        readChain cfg e 0 st [] = (Success owner uri, (rebind cfg ^^ k) st, askedUpTo cfg st (Suc k))"
  proof (intro impI, elim conjE)
    assume k: "k < ?n" and tr: "\<forall>j<k. transient (attemptAt cfg e st j)"
      and at: "attemptAt cfg e st k = Returned (owner, uri)"
    from at have "attempt e (provider ((rebind cfg ^^ k) st)) k = Returned (owner, uri)"
      by (simp add: attemptAt_def)
    with k have "readChain cfg e k ((rebind cfg ^^ k) st) (askedUpTo cfg st k)
        = (Success owner uri, (rebind cfg ^^ k) st,
           askedUpTo cfg st k @ [provider ((rebind cfg ^^ k) st)])"
      by (simp add: readChain_success)
    with upto [OF tr] k show "readChain cfg e 0 st []
        = (Success owner uri, (rebind cfg ^^ k) st, askedUpTo cfg st (Suc k))"
      by (simp add: asked_Suc)
  qed
  have exhausted: "(\<forall>j<?n. transient (attemptAt cfg e st j)) \<longrightarrow>
        readChain cfg e 0 st [] = (ChainUnavailable, (rebind cfg ^^ ?n) st, askedUpTo cfg st ?n)"
  proof
    assume tr: "\<forall>j<?n. transient (attemptAt cfg e st j)"
    from upto [OF tr] show "readChain cfg e 0 st []
        = (ChainUnavailable, (rebind cfg ^^ ?n) st, askedUpTo cfg st ?n)"
      by (simp add: readChain_exhausted)
  qed
  have rot: "provider (rebind cfg st) = fst (getProvider cfg st)"
    by (simp add: rebind_def split: prod.splits)
  from bound notfound success exhausted rot show ?thesis by (intro conjI)
qed

text \<open>Token reported nonexistent at once; first endpoint timing out and the second
  answering; all four endpoints timing out.\<close>

theorem chain_read_attempts_witness:
  "0 < length (RPC_LIST cfgPrimary)
   \<and> attemptAt cfgPrimary envNonexistent (initState cfgPrimary Map.empty) 0
       = Threw (Some ''execution reverted: ERC721: owner query for nonexistent token'')
   \<and> nonexistent (Some ''execution reverted: ERC721: owner query for nonexistent token'')
   \<and> fst (readChain cfgPrimary envNonexistent 0 (initState cfgPrimary Map.empty) []) = TokenNotFound
   \<and> snd (snd (readChain cfgPrimary envNonexistent 0 (initState cfgPrimary Map.empty) []))
       = [''https://apechain.calderachain.xyz/http'']
   \<and> 1 < length (RPC_LIST cfgPrimary)
   \<and> transient (attemptAt cfgPrimary envFlaky (initState cfgPrimary Map.empty) 0)
   \<and> attemptAt cfgPrimary envFlaky (initState cfgPrimary Map.empty) 1
       = Returned (''0xAB'', ''https://example.com/7.json'')
   \<and> fst (readChain cfgPrimary envFlaky 0 (initState cfgPrimary Map.empty) [])
       = Success ''0xAB'' ''https://example.com/7.json''
   \<and> snd (snd (readChain cfgPrimary envFlaky 0 (initState cfgPrimary Map.empty) []))
       = [''https://apechain.calderachain.xyz/http'', ''https://rpc.apechain.com/http'']
   \<and> transient (attemptAt cfgPrimary envDown (initState cfgPrimary Map.empty) 0)
   \<and> transient (attemptAt cfgPrimary envDown (initState cfgPrimary Map.empty) 1)
   \<and> transient (attemptAt cfgPrimary envDown (initState cfgPrimary Map.empty) 2)
   \<and> transient (attemptAt cfgPrimary envDown (initState cfgPrimary Map.empty) 3)
   \<and> fst (readChain cfgPrimary envDown 0 (initState cfgPrimary Map.empty) []) = ChainUnavailable
   \<and> snd (snd (readChain cfgPrimary envDown 0 (initState cfgPrimary Map.empty) []))
       = [''https://apechain.calderachain.xyz/http'', ''https://rpc.apechain.com/http'',
          ''https://apechain.drpc.org'', ''https://33139.rpc.thirdweb.com'']"
proof -
  let ?s = "initState cfgPrimary Map.empty"
  let ?msg = "Some ''execution reverted: ERC721: owner query for nonexistent token''"
  let ?u = "''https://example.com/7.json''"
  have n: "length (RPC_LIST cfgPrimary) = 4" by (simp add: RPC_LIST_def)
  have a1: "attemptAt cfgPrimary envNonexistent ?s 0 = Threw ?msg"
    by (simp add: attemptAt_def attempt_def envNonexistent_def envChain_def envServing_def)
  have a2: "nonexistent ?msg" by code_simp
  have b0: "transient (attemptAt cfgPrimary envFlaky ?s 0)"
    using not_nonexistent_timeout
    by (simp add: transient_def attemptAt_def attempt_def envFlaky_def envChain_def envServing_def)
  have b1: "attemptAt cfgPrimary envFlaky ?s 1 = Returned (''0xAB'', ?u)"
    by (simp add: attemptAt_def attempt_def envFlaky_def envChain_def envServing_def)
  have c: "transient (attemptAt cfgPrimary envDown ?s j)" for j
    using not_nonexistent_timeout by (simp add: transient_def attemptAt_def attempt_envDown)
  have k1: "askedUpTo cfgPrimary ?s (Suc 0) = [''https://apechain.calderachain.xyz/http'']"
    by code_simp
  have k2: "askedUpTo cfgPrimary ?s (Suc 1)
      = [''https://apechain.calderachain.xyz/http'', ''https://rpc.apechain.com/http'']"
    by code_simp
  have k4: "askedUpTo cfgPrimary ?s 4
      = [''https://apechain.calderachain.xyz/http'', ''https://rpc.apechain.com/http'',
         ''https://apechain.drpc.org'', ''https://33139.rpc.thirdweb.com'']"
    by code_simp
  from chain_read_attempts
    [where cfg = cfgPrimary and e = envNonexistent and st = ?s and k = 0 and m = ?msg] n a1 a2
  have r1: "readChain cfgPrimary envNonexistent 0 ?s []
      = (TokenNotFound, (rebind cfgPrimary ^^ 0) ?s, askedUpTo cfgPrimary ?s (Suc 0))"
    by simp
  have "\<forall>j<1. transient (attemptAt cfgPrimary envFlaky ?s j)" using b0 by simp
  with chain_read_attempts
    [where cfg = cfgPrimary and e = envFlaky and st = ?s and k = 1 and owner = "''0xAB''"
       and uri = ?u] n b1
  have r2: "readChain cfgPrimary envFlaky 0 ?s []
      = (Success ''0xAB'' ?u, (rebind cfgPrimary ^^ 1) ?s, askedUpTo cfgPrimary ?s (Suc 1))"
    by simp
  have "\<forall>j<length (RPC_LIST cfgPrimary). transient (attemptAt cfgPrimary envDown ?s j)"
    using c by blast
  with chain_read_attempts [where cfg = cfgPrimary and e = envDown and st = ?s] n
  have r3: "readChain cfgPrimary envDown 0 ?s []
      = (ChainUnavailable, (rebind cfgPrimary ^^ 4) ?s, askedUpTo cfgPrimary ?s 4)"
    by simp
  from n have l0: "0 < length (RPC_LIST cfgPrimary)" and l1: "1 < length (RPC_LIST cfgPrimary)"
    by simp_all
  from r1 k1 have f1: "fst (readChain cfgPrimary envNonexistent 0 ?s []) = TokenNotFound"
    and g1: "snd (snd (readChain cfgPrimary envNonexistent 0 ?s []))
       = [''https://apechain.calderachain.xyz/http'']"
    by simp_all
  from r2 k2 have f2: "fst (readChain cfgPrimary envFlaky 0 ?s []) = Success ''0xAB'' ?u"
    and g2: "snd (snd (readChain cfgPrimary envFlaky 0 ?s []))
       = [''https://apechain.calderachain.xyz/http'', ''https://rpc.apechain.com/http'']"
    by simp_all
  from r3 k4 have f3: "fst (readChain cfgPrimary envDown 0 ?s []) = ChainUnavailable"
    and g3: "snd (snd (readChain cfgPrimary envDown 0 ?s []))
       = [''https://apechain.calderachain.xyz/http'', ''https://rpc.apechain.com/http'',
          ''https://apechain.drpc.org'', ''https://33139.rpc.thirdweb.com'']"
    by simp_all
  from l0 a1 a2 f1 g1 l1 b0 b1 f2 g2 c [of 0] c [of 1] c [of 2] c [of 3] f3 g3
  show ?thesis by (intro conjI)
qed

section \<open>Metadata fetcher: the gateway loop\<close>

lemma okJson_Some_iff: "okJson r = Some data \<longleftrightarrow> r = Response True (Some data)"
  by (cases r) auto

lemma okJson_None_iff:
  "okJson r = None \<longleftrightarrow> r = NetworkError \<or> (\<exists>body. r = Response False body) \<or> r = Response True None"
  by (cases r) auto

lemma tryGateways_all_fail:
  "(\<forall>g\<in>set gs. okJson (net (g @ h)) = None) \<Longrightarrow>
     tryGateways net h gs = (None, map (\<lambda>g. g @ h) gs)"
  by (induction gs) (simp_all add: Let_def)

lemma tryGateways_first:
  "k < length gs \<Longrightarrow> okJson (net (gs ! k @ h)) = Some data \<Longrightarrow>
   (\<forall>j<k. okJson (net (gs ! j @ h)) = None) \<Longrightarrow>
     tryGateways net h gs = (Some data, map (\<lambda>g. g @ h) (take (Suc k) gs))"
proof (induction gs arbitrary: k)
  case Nil
  then show ?case by simp
next
  case (Cons g gs)
  show ?case
  proof (cases k)
    case 0
    with Cons.prems show ?thesis by (simp add: Let_def)
  next
    case (Suc k')
    with Cons.prems have "k' < length gs" "okJson (net (gs ! k' @ h)) = Some data"
      by simp_all
    moreover from Cons.prems(3) Suc have "\<forall>j<k'. okJson (net (gs ! j @ h)) = None"
      by (metis Suc_less_eq nth_Cons_Suc)
    ultimately have "tryGateways net h gs = (Some data, map (\<lambda>g. g @ h) (take (Suc k') gs))"
      by (rule Cons.IH)
    moreover from Cons.prems(3) Suc have "okJson (net (g @ h)) = None"
      by (metis nth_Cons_0 zero_less_Suc)
    ultimately show ?thesis using Suc by (simp add: Let_def)
  qed
qed

lemma tryGateways_None_iff:
  "fst (tryGateways net h gs) = None \<longleftrightarrow> (\<forall>g\<in>set gs. okJson (net (g @ h)) = None)"
  by (induction gs) (auto simp: Let_def split: option.splits prod.splits)

lemma tryGateways_prefix:
  "\<exists>k\<le>length gs. snd (tryGateways net h gs) = map (\<lambda>g. g @ h) (take k gs)"
proof (induction gs)
  case Nil
  then show ?case by simp
next
  case (Cons g gs)
  then obtain k where k: "k \<le> length gs" "snd (tryGateways net h gs) = map (\<lambda>g. g @ h) (take k gs)"
    by blast
  show ?case
  proof (cases "okJson (net (g @ h))")
    case None
    with k have "snd (tryGateways net h (g # gs)) = map (\<lambda>g. g @ h) (take (Suc k) (g # gs))"
      by (auto simp: Let_def split: prod.splits)
    with k(1) show ?thesis by (metis Suc_le_mono length_Cons)
  next
    case (Some data)
    then have "snd (tryGateways net h (g # gs)) = map (\<lambda>g. g @ h) (take 1 (g # gs))"
      by (simp add: Let_def)
    then show ?thesis by (metis One_nat_def Suc_le_mono length_Cons le0)
  qed
qed

lemma fetch_fallthrough:
  "\<not> directOk net uri \<Longrightarrow>
     fetchMetadataWithRetry net uri =
       (case tryGateways net (ipfsHashOf uri) IPFS_GATEWAYS of
          (r, reqs) \<Rightarrow>
            (case r of None \<Rightarrow> Inl MetadataUnavailable | Some data \<Rightarrow> Inr data,
             (if isDirect uri then [uri] else []) @ reqs))"
  by (auto simp: fetchMetadataWithRetry_def directOk_def)

lemma fetch_shortcut:
  "isDirect uri \<Longrightarrow> okJson (net uri) = Some data \<Longrightarrow>
     fetchMetadataWithRetry net uri = (Inr data, [uri])"
  by (simp add: fetchMetadataWithRetry_def)

text \<open>
  Claim C3. When the direct attempt has not given a document (it was not made, or it
  failed), the requests that follow it are a prefix of the gateway URLs in the order of
  \<open>IPFS_GATEWAYS\<close>, the same on every call. If the gateway at index \<open>k\<close> is the first to
  answer with HTTP success and a body that parses, the fetch returns that document after
  \<open>k + 1\<close> gateway requests, none of them to a later gateway. The fetch fails with
  \<open>MetadataUnavailable\<close> exactly when every gateway attempt fails and no direct attempt
  has succeeded, an attempt failing when the request throws (network error or timeout),
  the response is not \<open>ok\<close>, or its body does not parse.
\<close>

theorem gateway_loop_first_success:
  "(\<not> directOk net uri \<longrightarrow>
      (\<exists>k\<le>length IPFS_GATEWAYS.
         snd (fetchMetadataWithRetry net uri)
           = (if isDirect uri then [uri] else []) @ take k (gatewayUrls uri)))
   \<and> (\<not> directOk net uri \<and> k < length IPFS_GATEWAYS
        \<and> net (gatewayUrls uri ! k) = Response True (Some data)
        \<and> (\<forall>j<k. okJson (net (gatewayUrls uri ! j)) = None) \<longrightarrow>
        fetchMetadataWithRetry net uri
          = (Inr data, (if isDirect uri then [uri] else []) @ take (Suc k) (gatewayUrls uri)))
   \<and> (fst (fetchMetadataWithRetry net uri) = Inl MetadataUnavailable \<longleftrightarrow>
        (\<forall>u\<in>set (gatewayUrls uri). okJson (net u) = None) \<and> \<not> directOk net uri)
   \<and> (okJson (net u) = None \<longleftrightarrow>
        net u = NetworkError \<or> (\<exists>body. net u = Response False body) \<or> net u = Response True None)
   \<and> gatewayUrls uri =
        [''https://dweb.link/ipfs/'' @ ipfsHashOf uri, ''https://ipfs.io/ipfs/'' @ ipfsHashOf uri,
         ''https://gateway.pinata.cloud/ipfs/'' @ ipfsHashOf uri,
         ''https://cloudflare-ipfs.com/ipfs/'' @ ipfsHashOf uri]"
proof -
  let ?h = "ipfsHashOf uri"
  let ?pre = "if isDirect uri then [uri] else []"
  have order: "\<not> directOk net uri \<longrightarrow>
      (\<exists>k\<le>length IPFS_GATEWAYS.
         snd (fetchMetadataWithRetry net uri) = ?pre @ take k (gatewayUrls uri))"
  proof
    assume nd: "\<not> directOk net uri"
    from tryGateways_prefix [of IPFS_GATEWAYS net ?h] obtain k
      where "k \<le> length IPFS_GATEWAYS"
        "snd (tryGateways net ?h IPFS_GATEWAYS) = map (\<lambda>g. g @ ?h) (take k IPFS_GATEWAYS)"
      by blast
    with nd have "k \<le> length IPFS_GATEWAYS
        \<and> snd (fetchMetadataWithRetry net uri) = ?pre @ take k (gatewayUrls uri)"
      by (auto simp: fetch_fallthrough gatewayUrls_def take_map split: prod.splits)
    then show "\<exists>k\<le>length IPFS_GATEWAYS.
         snd (fetchMetadataWithRetry net uri) = ?pre @ take k (gatewayUrls uri)"
      by blast
  qed
  have first: "\<not> directOk net uri \<and> k < length IPFS_GATEWAYS
        \<and> net (gatewayUrls uri ! k) = Response True (Some data)
        \<and> (\<forall>j<k. okJson (net (gatewayUrls uri ! j)) = None) \<longrightarrow>
        fetchMetadataWithRetry net uri = (Inr data, ?pre @ take (Suc k) (gatewayUrls uri))"
  proof (intro impI, elim conjE)
    assume nd: "\<not> directOk net uri" and k: "k < length IPFS_GATEWAYS"
      and ok: "net (gatewayUrls uri ! k) = Response True (Some data)"
      and before: "\<forall>j<k. okJson (net (gatewayUrls uri ! j)) = None"
    from k ok have "okJson (net (IPFS_GATEWAYS ! k @ ?h)) = Some data"
      by (simp add: gatewayUrls_def)
    moreover from k before have "\<forall>j<k. okJson (net (IPFS_GATEWAYS ! j @ ?h)) = None"
      by (simp add: gatewayUrls_def)
    ultimately have "tryGateways net ?h IPFS_GATEWAYS
        = (Some data, map (\<lambda>g. g @ ?h) (take (Suc k) IPFS_GATEWAYS))"
      using k by (intro tryGateways_first)
    with nd show "fetchMetadataWithRetry net uri
        = (Inr data, ?pre @ take (Suc k) (gatewayUrls uri))"
      by (simp add: fetch_fallthrough gatewayUrls_def take_map)
  qed
  have unavailable: "fst (fetchMetadataWithRetry net uri) = Inl MetadataUnavailable \<longleftrightarrow>
        (\<forall>u\<in>set (gatewayUrls uri). okJson (net u) = None) \<and> \<not> directOk net uri"
  proof (cases "directOk net uri")
    case True
    then obtain data where "isDirect uri" "okJson (net uri) = Some data"
      by (auto simp: directOk_def)
    with True show ?thesis by (simp add: fetch_shortcut)
  next
    case False
    have "fst (tryGateways net ?h IPFS_GATEWAYS) = None
        \<longleftrightarrow> (\<forall>u\<in>set (gatewayUrls uri). okJson (net u) = None)"
      by (simp add: tryGateways_None_iff gatewayUrls_def)
    with False show ?thesis
      by (auto simp: fetch_fallthrough split: prod.splits option.splits)
  qed
  have fails: "okJson (net u) = None \<longleftrightarrow>
        net u = NetworkError \<or> (\<exists>body. net u = Response False body) \<or> net u = Response True None"
    by (rule okJson_None_iff)
  have urls: "gatewayUrls uri =
        [''https://dweb.link/ipfs/'' @ ?h, ''https://ipfs.io/ipfs/'' @ ?h,
         ''https://gateway.pinata.cloud/ipfs/'' @ ?h, ''https://cloudflare-ipfs.com/ipfs/'' @ ?h]"
    by (simp add: gatewayUrls_def IPFS_GATEWAYS_def)
  from order first unavailable fails urls show ?thesis by (intro conjI)
qed

text \<open>Two gateways answering 404 and the third serving the document: three requests,
  none to the fourth. Every request failing: \<open>MetadataUnavailable\<close>.\<close>

theorem gateway_loop_first_success_witness:
  "\<not> directOk netThird ''ipfs://QmHash/7''
   \<and> 2 < length IPFS_GATEWAYS
   \<and> netThird (gatewayUrls ''ipfs://QmHash/7'' ! 2) = Response True (Some docFoo)
   \<and> okJson (netThird (gatewayUrls ''ipfs://QmHash/7'' ! 0)) = None
   \<and> okJson (netThird (gatewayUrls ''ipfs://QmHash/7'' ! 1)) = None
   \<and> fetchMetadataWithRetry netThird ''ipfs://QmHash/7''
       = (Inr docFoo,
          [''https://dweb.link/ipfs/QmHash/7'', ''https://ipfs.io/ipfs/QmHash/7'',
           ''https://gateway.pinata.cloud/ipfs/QmHash/7''])
   \<and> \<not> directOk (\<lambda>url. NetworkError) ''ipfs://QmHash/7''
   \<and> fst (fetchMetadataWithRetry (\<lambda>url. NetworkError) ''ipfs://QmHash/7'')
       = Inl MetadataUnavailable"
proof -
  let ?p = "''ipfs://QmHash/7''"
  have h: "ipfsHashOf ?p = ''QmHash/7''" by code_simp
  have nd: "\<not> isDirect ?p" by code_simp
  then have d1: "\<not> directOk netThird ?p" and d2: "\<not> directOk (\<lambda>url. NetworkError) ?p"
    by (simp_all add: directOk_def)
  have l: "2 < length IPFS_GATEWAYS" by (simp add: IPFS_GATEWAYS_def)
  have u: "gatewayUrls ?p =
      [''https://dweb.link/ipfs/QmHash/7'', ''https://ipfs.io/ipfs/QmHash/7'',
       ''https://gateway.pinata.cloud/ipfs/QmHash/7'',
       ''https://cloudflare-ipfs.com/ipfs/QmHash/7'']"
    by (simp add: gatewayUrls_def IPFS_GATEWAYS_def h)
  have g2: "netThird (gatewayUrls ?p ! 2) = Response True (Some docFoo)"
    by (simp add: u netThird_def)
  have g0: "okJson (netThird (gatewayUrls ?p ! 0)) = None"
    by (simp add: u netThird_def)
  have g1: "okJson (netThird (gatewayUrls ?p ! 1)) = None"
    by (simp add: u netThird_def)
  have before: "\<forall>j<2. okJson (netThird (gatewayUrls ?p ! j)) = None"
    using g0 g1 by (simp add: less_Suc_eq numeral_2_eq_2)
  note t1 = gateway_loop_first_success
    [where net = netThird and uri = ?p and k = 2 and data = docFoo]
  from t1 d1 l g2 before
  have "fetchMetadataWithRetry netThird ?p
      = (Inr docFoo, (if isDirect ?p then [?p] else []) @ take (Suc 2) (gatewayUrls ?p))"
    by blast
  with nd u have r1: "fetchMetadataWithRetry netThird ?p
       = (Inr docFoo,
          [''https://dweb.link/ipfs/QmHash/7'', ''https://ipfs.io/ipfs/QmHash/7'',
           ''https://gateway.pinata.cloud/ipfs/QmHash/7''])"
    by simp
  note t2 = gateway_loop_first_success [where net = "\<lambda>url. NetworkError" and uri = ?p]
  have "\<forall>u\<in>set (gatewayUrls ?p). okJson ((\<lambda>url. NetworkError) u) = None" by simp
  with t2 d2 have r2: "fst (fetchMetadataWithRetry (\<lambda>url. NetworkError) ?p) = Inl MetadataUnavailable"
    by blast
  from d1 l g2 g0 g1 r1 d2 r2 show ?thesis by (intro conjI)
qed

section \<open>Metadata fetcher: the direct attempt\<close>

lemma startsWith_append: "startsWith s p \<Longrightarrow> startsWith (s @ t) p"
  by (induction s p rule: startsWith.induct) auto

lemma includes_str_append: "includes_str s p \<Longrightarrow> includes_str (s @ t) p"
proof (induction s)
  case Nil
  then have "p = []" by (simp add: includes_str_def split: if_splits)
  then show ?case by (cases t) (simp_all add: includes_str_def)
next
  case (Cons c cs)
  show ?case
  proof (cases "startsWith (c # cs) p")
    case True
    then have "startsWith ((c # cs) @ t) p" by (rule startsWith_append)
    then show ?thesis by (simp add: includes_str_def)
  next
    case False
    with Cons.prems have "includes_str cs p" by (simp add: includes_str_def)
    then have "includes_str (cs @ t) p" by (rule Cons.IH)
    then show ?thesis by (auto simp: includes_str_def)
  qed
qed

lemma gateway_includes_ipfs: "g \<in> set IPFS_GATEWAYS \<Longrightarrow> includes_str (g @ h) ''ipfs''"
proof -
  assume "g \<in> set IPFS_GATEWAYS"
  then have "g = ''https://dweb.link/ipfs/'' \<or> g = ''https://ipfs.io/ipfs/''
      \<or> g = ''https://gateway.pinata.cloud/ipfs/'' \<or> g = ''https://cloudflare-ipfs.com/ipfs/''"
    by (simp add: IPFS_GATEWAYS_def)
  moreover have "includes_str ''https://dweb.link/ipfs/'' ''ipfs''" by code_simp
  moreover have "includes_str ''https://ipfs.io/ipfs/'' ''ipfs''" by code_simp
  moreover have "includes_str ''https://gateway.pinata.cloud/ipfs/'' ''ipfs''" by code_simp
  moreover have "includes_str ''https://cloudflare-ipfs.com/ipfs/'' ''ipfs''" by code_simp
  ultimately have "includes_str g ''ipfs''" by blast
  then show ?thesis by (rule includes_str_append)
qed

lemma tryGateways_requests: "set (snd (tryGateways net h gs)) \<subseteq> (\<lambda>g. g @ h) ` set gs"
  by (induction gs) (auto simp: Let_def split: option.splits prod.splits)

lemma direct_not_requested_by_gateways:
  assumes "isDirect uri"
  shows "uri \<notin> set (snd (tryGateways net h IPFS_GATEWAYS))"
proof
  assume "uri \<in> set (snd (tryGateways net h IPFS_GATEWAYS))"
  with tryGateways_requests obtain g where "g \<in> set IPFS_GATEWAYS" "uri = g @ h" by blast
  then have "includes_str uri ''ipfs''" by (simp add: gateway_includes_ipfs)
  with assms show False by (simp add: isDirect_def)
qed

lemma tryGateways_req_requests:
  "set (snd (tryGateways_req net h gs)) \<subseteq> (\<lambda>g. gatewayGet (g @ h)) ` set gs"
  by (induction gs) (auto simp: Let_def split: option.splits prod.splits)

lemma gateway_request_includes_ipfs:
  assumes "r \<in> set (snd (tryGateways_req net h IPFS_GATEWAYS))"
  shows "includes_str (req_url r) ''ipfs''"
proof -
  from assms tryGateways_req_requests obtain g where "g \<in> set IPFS_GATEWAYS" "r = gatewayGet (g @ h)"
    by blast
  then show ?thesis by (simp add: gateway_includes_ipfs gatewayGet_def)
qed

text \<open>
  The fetcher with the options of its requests and the fetcher on URLs are one function:
  on a network that answers by URL they return the same result, and the URLs of the
  requests of the one are the requests of the other. A gateway request is always made
  with the signal of a controller that aborts after 5000 ms.
\<close>

lemma tryGateways_req_urls:
  "tryGateways_req (\<lambda>r. net (req_url r)) h gs
     = (fst (tryGateways net h gs), map gatewayGet (snd (tryGateways net h gs)))"
  by (induction gs) (auto simp: Let_def gatewayGet_def split: option.splits prod.splits)

lemma fetchMetadataWithRetry_req_urls:
  "fetchMetadataWithRetry_req (\<lambda>r. net (req_url r)) uri
     = (fst (fetchMetadataWithRetry net uri),
        map (\<lambda>u. if u = uri \<and> isDirect uri then directGet u else gatewayGet u)
          (snd (fetchMetadataWithRetry net uri)))"
proof -
  obtain r reqs where t: "tryGateways net (ipfsHashOf uri) IPFS_GATEWAYS = (r, reqs)"
    by (cases "tryGateways net (ipfsHashOf uri) IPFS_GATEWAYS") auto
  have "isDirect uri \<longrightarrow> uri \<notin> set reqs"
    using direct_not_requested_by_gateways [of uri net "ipfsHashOf uri"] t by auto
  with t show ?thesis
    by (auto simp: fetchMetadataWithRetry_req_def fetchMetadataWithRetry_def tryGateways_req_urls
          directGet_def split: option.splits)
qed

lemma fetchMetadataWithRetry_req_project:
  "map_prod id (map req_url) (fetchMetadataWithRetry_req (\<lambda>r. net (req_url r)) uri)
     = fetchMetadataWithRetry net uri"
proof -
  have "map (req_url \<circ> (\<lambda>u. if u = uri \<and> isDirect uri then directGet u else gatewayGet u)) us = us"
    for us
    by (induction us) (auto simp: directGet_def gatewayGet_def)
  then show ?thesis by (simp add: fetchMetadataWithRetry_req_urls)
qed

lemma gateway_requests_abort:
  "r \<in> set (snd (tryGateways_req net h gs)) \<Longrightarrow> req_timeout r = None \<and> req_abort_after r = Some 5000"
  using tryGateways_req_requests [of net h gs] by (auto simp: gatewayGet_def)

text \<open>
  Claim C7, as the code has it. The script takes the direct attempt for the pointers
  that start with \<open>http\<close> and do not contain \<open>ipfs\<close>. For such a pointer the first
  request is a GET of the pointer itself with the option \<open>timeout: 5000\<close> (milliseconds),
  and it is the only request made to that URL. If that request answers with HTTP success
  and a body that parses, the fetch returns the document with no other request made. If
  it gives no document, the fetch goes on to the gateway loop on the identifier extracted
  from the pointer. For any other pointer every request is one of the gateway loop.
\<close>

theorem direct_url_short_circuit:
  "(startsWith uri ''http'' \<and> \<not> includes_str uri ''ipfs'' \<longrightarrow>
      (\<exists>rest. snd (fetchMetadataWithRetry_req net uri) = directGet uri # rest)
      \<and> req_url (directGet uri) = uri \<and> req_timeout (directGet uri) = Some 5000
      \<and> length (filter (\<lambda>r. req_url r = uri) (snd (fetchMetadataWithRetry_req net uri))) = 1
      \<and> (net (directGet uri) = Response True (Some data) \<longrightarrow>
            fetchMetadataWithRetry_req net uri = (Inr data, [directGet uri]))
      \<and> (okJson (net (directGet uri)) = None \<longrightarrow>
            fetchMetadataWithRetry_req net uri =
              (case fst (tryGateways_req net (ipfsHashOf uri) IPFS_GATEWAYS) of
                 None \<Rightarrow> Inl MetadataUnavailable | Some d \<Rightarrow> Inr d,
               directGet uri # snd (tryGateways_req net (ipfsHashOf uri) IPFS_GATEWAYS))))
   \<and> (\<not> (startsWith uri ''http'' \<and> \<not> includes_str uri ''ipfs'') \<longrightarrow>
        snd (fetchMetadataWithRetry_req net uri)
          = snd (tryGateways_req net (ipfsHashOf uri) IPFS_GATEWAYS))"
proof -
  let ?g = "tryGateways_req net (ipfsHashOf uri) IPFS_GATEWAYS"
  let ?f = "fetchMetadataWithRetry_req net uri"
  have opts: "req_url (directGet uri) = uri" "req_timeout (directGet uri) = Some 5000"
    by (simp_all add: directGet_def)
  have short: "isDirect uri \<Longrightarrow> net (directGet uri) = Response True (Some data) \<Longrightarrow>
        ?f = (Inr data, [directGet uri])"
    by (simp add: fetchMetadataWithRetry_req_def)
  have through: "isDirect uri \<Longrightarrow> okJson (net (directGet uri)) = None \<Longrightarrow>
        ?f = (case fst ?g of None \<Rightarrow> Inl MetadataUnavailable | Some d \<Rightarrow> Inr d,
              directGet uri # snd ?g)"
    by (auto simp: fetchMetadataWithRetry_req_def split: prod.splits)
  have none: "\<not> isDirect uri \<Longrightarrow> snd ?f = snd ?g"
    by (auto simp: fetchMetadataWithRetry_req_def split: prod.splits)
  have gw: "isDirect uri \<Longrightarrow> filter (\<lambda>r. req_url r = uri) (snd ?g) = []"
  proof -
    assume d: "isDirect uri"
    have "req_url r \<noteq> uri" if "r \<in> set (snd ?g)" for r
      using gateway_request_includes_ipfs [OF that] d by (auto simp: isDirect_def)
    then show ?thesis by (simp add: filter_empty_conv)
  qed
  have once: "isDirect uri \<Longrightarrow>
        (\<exists>rest. snd ?f = directGet uri # rest)
        \<and> length (filter (\<lambda>r. req_url r = uri) (snd ?f)) = 1"
  proof -
    assume d: "isDirect uri"
    show ?thesis
    proof (cases "okJson (net (directGet uri))")
      case (Some doc)
      with d have "?f = (Inr doc, [directGet uri])" by (simp add: fetchMetadataWithRetry_req_def)
      then show ?thesis by (simp add: opts)
    next
      case None
      with d through have "snd ?f = directGet uri # snd ?g" by simp
      with gw [OF d] show ?thesis by (simp add: opts)
    qed
  qed
  from opts once short through none show ?thesis unfolding isDirect_def by blast
qed

text \<open>A direct URL that is served; the same URL not served, falling through to the four
  gateways; an \<open>ipfs://\<close> pointer, going to the gateways at once.\<close>

theorem direct_url_short_circuit_witness:
  "startsWith ''https://example.com/7.json'' ''http''
   \<and> \<not> includes_str ''https://example.com/7.json'' ''ipfs''
   \<and> netDirect_req (directGet ''https://example.com/7.json'') = Response True (Some docFoo)
   \<and> fetchMetadataWithRetry_req netDirect_req ''https://example.com/7.json''
       = (Inr docFoo,
          [\<lparr>req_url = ''https://example.com/7.json'', req_timeout = Some 5000,
            req_abort_after = None\<rparr>])
   \<and> okJson (netThird_req (directGet ''https://example.com/7.json'')) = None
   \<and> fetchMetadataWithRetry_req netThird_req ''https://example.com/7.json''
       = (Inl MetadataUnavailable,
          [directGet ''https://example.com/7.json'',
           gatewayGet ''https://dweb.link/ipfs/https://example.com/7.json'',
           gatewayGet ''https://ipfs.io/ipfs/https://example.com/7.json'',
           gatewayGet ''https://gateway.pinata.cloud/ipfs/https://example.com/7.json'',
           gatewayGet ''https://cloudflare-ipfs.com/ipfs/https://example.com/7.json''])
   \<and> \<not> (startsWith ''ipfs://QmHash/7'' ''http'' \<and> \<not> includes_str ''ipfs://QmHash/7'' ''ipfs'')
   \<and> snd (fetchMetadataWithRetry_req netThird_req ''ipfs://QmHash/7'')
       = [gatewayGet ''https://dweb.link/ipfs/QmHash/7'', gatewayGet ''https://ipfs.io/ipfs/QmHash/7'',
          gatewayGet ''https://gateway.pinata.cloud/ipfs/QmHash/7'']"
proof -
  let ?u = "''https://example.com/7.json''"
  have d: "startsWith ?u ''http''" "\<not> includes_str ?u ''ipfs''" by code_simp+
  have n: "netDirect_req (directGet ?u) = Response True (Some docFoo)"
    by (simp add: netDirect_req_def netDirect_def directGet_def)
  have f: "okJson (netThird_req (directGet ?u)) = None"
    by (simp add: netThird_req_def netThird_def directGet_def)
  have h: "ipfsHashOf ?u = ?u" by code_simp
  have nd: "\<not> (startsWith ''ipfs://QmHash/7'' ''http'' \<and> \<not> includes_str ''ipfs://QmHash/7'' ''ipfs'')"
    by code_simp
  have h2: "ipfsHashOf ''ipfs://QmHash/7'' = ''QmHash/7''" by code_simp
  from direct_url_short_circuit [where uri = ?u and net = netDirect_req and data = docFoo] d n
  have "fetchMetadataWithRetry_req netDirect_req ?u = (Inr docFoo, [directGet ?u])" by blast
  then have r1: "fetchMetadataWithRetry_req netDirect_req ?u
       = (Inr docFoo, [\<lparr>req_url = ?u, req_timeout = Some 5000, req_abort_after = None\<rparr>])"
    by (simp add: directGet_def)
  from direct_url_short_circuit [where uri = ?u and net = netThird_req] d f
  have "fetchMetadataWithRetry_req netThird_req ?u =
          (case fst (tryGateways_req netThird_req (ipfsHashOf ?u) IPFS_GATEWAYS) of
             None \<Rightarrow> Inl MetadataUnavailable | Some d \<Rightarrow> Inr d,
           directGet ?u # snd (tryGateways_req netThird_req (ipfsHashOf ?u) IPFS_GATEWAYS))"
    by blast
  moreover have "tryGateways_req netThird_req ?u IPFS_GATEWAYS
       = (None,
          [gatewayGet ''https://dweb.link/ipfs/https://example.com/7.json'',
           gatewayGet ''https://ipfs.io/ipfs/https://example.com/7.json'',
           gatewayGet ''https://gateway.pinata.cloud/ipfs/https://example.com/7.json'',
           gatewayGet ''https://cloudflare-ipfs.com/ipfs/https://example.com/7.json''])"
    by code_simp
  ultimately have r2: "fetchMetadataWithRetry_req netThird_req ?u
       = (Inl MetadataUnavailable,
          [directGet ?u, gatewayGet ''https://dweb.link/ipfs/https://example.com/7.json'',
           gatewayGet ''https://ipfs.io/ipfs/https://example.com/7.json'',
           gatewayGet ''https://gateway.pinata.cloud/ipfs/https://example.com/7.json'',
           gatewayGet ''https://cloudflare-ipfs.com/ipfs/https://example.com/7.json''])"
    by (simp add: h)
  from direct_url_short_circuit [where uri = "''ipfs://QmHash/7''" and net = netThird_req] nd
  have "snd (fetchMetadataWithRetry_req netThird_req ''ipfs://QmHash/7'')
       = snd (tryGateways_req netThird_req (ipfsHashOf ''ipfs://QmHash/7'') IPFS_GATEWAYS)"
    by blast
  moreover have "tryGateways_req netThird_req ''QmHash/7'' IPFS_GATEWAYS
       = (Some docFoo,
          [gatewayGet ''https://dweb.link/ipfs/QmHash/7'', gatewayGet ''https://ipfs.io/ipfs/QmHash/7'',
           gatewayGet ''https://gateway.pinata.cloud/ipfs/QmHash/7''])"
    by code_simp
  ultimately have r3: "snd (fetchMetadataWithRetry_req netThird_req ''ipfs://QmHash/7'')
       = [gatewayGet ''https://dweb.link/ipfs/QmHash/7'', gatewayGet ''https://ipfs.io/ipfs/QmHash/7'',
          gatewayGet ''https://gateway.pinata.cloud/ipfs/QmHash/7'']"
    by (simp add: h2)
  from d n r1 f r2 nd r3 show ?thesis by (intro conjI)
qed

text \<open>
  Claim C7 as stated fails. \<open>http://ipfs.example.com/meta/7\<close> is a plain HTTP URL on a
  fixed host, neither an \<open>ipfs://\<close> pointer nor one with an \<open>/ipfs/\<close> segment, and the
  server answers it with HTTP success and a document. The script's test finds \<open>ipfs\<close>
  in the host name: no GET of the pointer is made, the four requests go to the gateways
  with the whole pointer as identifier, and the fetch fails.
\<close>

theorem http_url_naming_ipfs_gets_no_direct_request:
  "specDirectUrl ''http://ipfs.example.com/meta/7''
   \<and> netIpfsHost_req (directGet ''http://ipfs.example.com/meta/7'') = Response True (Some docFoo)
   \<and> fetchMetadataWithRetry_req netIpfsHost_req ''http://ipfs.example.com/meta/7''
       = (Inl MetadataUnavailable,
          [gatewayGet ''https://dweb.link/ipfs/http://ipfs.example.com/meta/7'',
           gatewayGet ''https://ipfs.io/ipfs/http://ipfs.example.com/meta/7'',
           gatewayGet ''https://gateway.pinata.cloud/ipfs/http://ipfs.example.com/meta/7'',
           gatewayGet ''https://cloudflare-ipfs.com/ipfs/http://ipfs.example.com/meta/7''])
   \<and> fetchMetadataWithRetry netIpfsHost ''http://ipfs.example.com/meta/7''
       = (Inl MetadataUnavailable,
          [''https://dweb.link/ipfs/http://ipfs.example.com/meta/7'',
           ''https://ipfs.io/ipfs/http://ipfs.example.com/meta/7'',
           ''https://gateway.pinata.cloud/ipfs/http://ipfs.example.com/meta/7'',
           ''https://cloudflare-ipfs.com/ipfs/http://ipfs.example.com/meta/7''])"
  by code_simp

text \<open>The same happens to a URL whose scheme is written in upper case.\<close>

lemma upper_case_scheme_gets_no_direct_request:
  "specDirectUrl ''HTTPS://example.com/7.json''
   \<and> snd (fetchMetadataWithRetry netDirect ''HTTPS://example.com/7.json'')
       = [''https://dweb.link/ipfs/HTTPS://example.com/7.json'',
          ''https://ipfs.io/ipfs/HTTPS://example.com/7.json'',
          ''https://gateway.pinata.cloud/ipfs/HTTPS://example.com/7.json'',
          ''https://cloudflare-ipfs.com/ipfs/HTTPS://example.com/7.json'']"
  by code_simp

end
